theory Spec2Isabelle
  imports Complex_Main "HOL-Library.Multiset"
begin

section \<open>AgentWallet: the data model\<close>

text \<open>
  A shallow embedding of the AgentWallet SDK server: the rules engine and kill switch
  (\<^verbatim>\<open>services/rulesEngine\<close>), the transaction route (\<^verbatim>\<open>routes/transactions.js\<close>), the
  dead-man switch, the spawn governor and the cross-agent governor.

  Conventions. Database rows are records and a Prisma table is the list of its rows, in
  the order the database returns them; \<^verbatim>\<open>findFirst\<close> and \<^verbatim>\<open>findUnique\<close> are
  \<^const>\<open>find\<close>, \<^verbatim>\<open>findMany\<close> is \<^const>\<open>filter\<close>, \<^verbatim>\<open>orderBy\<close> is a stable sort. Row
  and agent identifiers (opaque cuid strings in the source) are natural numbers.
  JavaScript numbers and Prisma decimals are exact rationals: rounding is not modelled.
  Instants are integer milliseconds since the epoch. A field that may be
  \<^verbatim>\<open>undefined\<close> or \<^verbatim>\<open>null\<close> is an option where the code treats the two alike;
  the overrides of a spawn, where it does not, keep them apart. The human-readable \<^verbatim>\<open>reason\<close> and
  \<^verbatim>\<open>details\<close> texts of results are not modelled, nor are columns no modelled function
  reads (names, currencies, recipient types, creation dates of rules). A database call
  that fails for reasons of its own (connection loss) is not modelled; a call that throws
  because a row is missing is an \<open>InternalFailure\<close>.

  Functions keep their source names; a leading underscore is dropped
  (\<^verbatim>\<open>_trigger\<close> is \<open>trigger\<close>), fields carry the prefix of their record, the route handler
  of \<^verbatim>\<open>POST /api/transactions\<close> is \<open>postTransaction\<close>, and the dead-man switch's
  \<^verbatim>\<open>evaluateTransaction\<close> is \<open>dmsEvaluateTransaction\<close>, the name being taken by the rules
  engine's.
\<close>

datatype wallet_status = ACTIVE | FROZEN | CLOSED | KILL_SWITCHED

datatype agent_status =
  AGENT_ACTIVE | AGENT_PAUSED | AGENT_SUSPENDED | AGENT_FROZEN | AGENT_TERMINATED | AGENT_KILLED

text \<open>
  The last transaction status is the \<^verbatim>\<open>KILL_SWITCHED\<close> that the compliance report of
  \<^verbatim>\<open>routes/audit.js\<close> counts; no function modelled here writes it.
\<close>

datatype tx_status =
  PENDING | APPROVED | AWAITING_APPROVAL | REJECTED | COMPLETED | FAILED | CANCELLED
  | TX_KILL_SWITCHED

datatype rule_type =
  PER_TRANSACTION_LIMIT | DAILY_LIMIT | WEEKLY_LIMIT | MONTHLY_LIMIT
  | CATEGORY_WHITELIST | CATEGORY_BLACKLIST | RECIPIENT_WHITELIST | RECIPIENT_BLACKLIST
  | TIME_WINDOW | REQUIRES_APPROVAL | SIGNAL_FILTER | KILL_SWITCH | OTHER_RULE_TYPE

datatype trigger_type =
  DRAWDOWN_PERCENT | LOSS_AMOUNT | CONSECUTIVE_LOSSES | DAILY_LOSS_LIMIT | OTHER_TRIGGER

datatype decision = ALLOWED | BLOCKED | ESCALATED | SYSTEM

datatype error = InternalFailure

record wallet =
  w_id :: nat
  w_agentId :: nat
  w_balance :: rat
  w_status :: wallet_status

record agent =
  a_id :: nat
  a_ownerId :: nat
  a_status :: agent_status

text \<open>The JSON \<^verbatim>\<open>parameters\<close> of a spend rule: every key any rule kind reads.\<close>

record rule_params =
  p_limit :: "rat option"
  p_categories :: "string list option"
  p_recipients :: "string list option"
  p_startHour :: "int option"
  p_endHour :: "int option"
  p_threshold :: "rat option"
  p_allowedSignals :: "string list option"
  p_throttled :: bool

record spend_rule =
  r_id :: nat
  r_walletId :: nat
  r_ruleType :: rule_type
  r_parameters :: rule_params
  r_active :: bool
  r_priority :: int

record kill_switch =
  ks_id :: nat
  ks_walletId :: nat
  ks_triggerType :: trigger_type
  ks_threshold :: rat
  ks_windowHours :: int
  ks_active :: bool
  ks_triggered :: bool
  ks_triggeredAt :: "int option"
  ks_resetAt :: "int option"
  ks_currentValue :: "rat option"

text \<open>One entry of \<^verbatim>\<open>results\<close> and the evaluation the rules engine returns.\<close>

record result_entry =
  e_ruleId :: nat
  e_ruleType :: rule_type
  e_passed :: bool

record evaluation =
  ev_approved :: bool
  ev_killSwitched :: bool
  ev_requiresApproval :: bool
  ev_results :: "result_entry list"

record txn =
  t_id :: nat
  t_walletId :: nat
  t_amount :: rat
  t_recipientId :: "string option"
  t_category :: "string option"
  t_description :: "string option"
  t_status :: tx_status
  t_ruleCheckResults :: "evaluation option"
  t_pnl :: "rat option"
  t_createdAt :: int
  t_completedAt :: "int option"

record audit_log =
  al_agentId :: nat
  al_action :: string
  al_resource :: string
  al_resourceId :: nat
  al_decision :: decision

subsection \<open>Governance tables (V2)\<close>

datatype lineage_status = LIN_ACTIVE | LIN_TERMINATED

record spawn_policy =
  sp_maxSpendRatio :: rat
  sp_maxTransactionRatio :: rat
  sp_maxSpawnDepth :: int
  sp_maxChildren :: int
  sp_childrenCanSpawn :: bool

record lineage =
  l_agentId :: nat
  l_parentId :: "nat option"
  l_rootId :: nat
  l_depth :: int
  l_childrenIds :: "nat list"
  l_status :: lineage_status
  l_spawnPolicy :: "spawn_policy option"

record child_policy =
  cp_dailyLimit :: rat
  cp_maxSpendPerTx :: rat
  cp_vendorAllowlist :: "string list"

record spawn_event =
  se_parentId :: nat
  se_childId :: nat
  se_depth :: int
  se_inheritedPolicy :: "child_policy option"
  se_authorized :: bool

datatype dms_action = Alert | Throttle | Freeze | Terminate | OtherAction

record dms_config =
  dc_agentId :: nat
  dc_anomalyWindowMinutes :: int
  dc_anomalySpendMultiplier :: rat
  dc_maxTxPerMinute :: int
  dc_maxUniqueVendorsPerHour :: int
  dc_onAnomaly :: dms_action
  dc_onMissedHeartbeat :: dms_action
  dc_onManualTrigger :: dms_action
  dc_cascadeToChildren :: bool
  dc_enabled :: bool

record dms_event =
  de_agentId :: nat
  de_triggerType :: string
  de_actionTaken :: dms_action
  de_cascadedTo :: "nat list"
  de_resolved :: bool

record cross_agent_policy =
  cap_id :: nat
  cap_sourceAgentId :: nat
  cap_targetAgentId :: "nat option"
  cap_targetAgentGroup :: "string option"
  cap_maxPerTransaction :: rat
  cap_maxDailyToTarget :: rat
  cap_maxDailyAllAgents :: rat
  cap_requireHumanApprovalAbove :: rat
  cap_allowedPaymentTypes :: "string list"
  cap_requireMutualPolicy :: bool
  cap_settlementMode :: string
  cap_minCounterpartyTrustScore :: rat
  cap_enabled :: bool

record agent_group =
  g_name :: string
  g_agentIds :: "nat list"

record cross_agent_tx =
  x_id :: nat
  x_sourceAgentId :: nat
  x_targetAgentId :: nat
  x_amount :: rat
  x_paymentType :: string
  x_policyId :: "nat option"
  x_authorized :: bool
  x_authorizationMethod :: string
  x_settlementStatus :: string
  x_requiresHuman :: bool
  x_createdAt :: int

text \<open>The database: one list of rows per Prisma model.\<close>

record db =
  wallets :: "wallet list"
  agents :: "agent list"
  spendRules :: "spend_rule list"
  killSwitches :: "kill_switch list"
  transactions :: "txn list"
  auditLogs :: "audit_log list"
  lineages :: "lineage list"
  spawnEvents :: "spawn_event list"
  dmsConfigs :: "dms_config list"
  dmsEvents :: "dms_event list"
  crossAgentPolicies :: "cross_agent_policy list"
  agentGroups :: "agent_group list"
  crossAgentTransactions :: "cross_agent_tx list"

text \<open>
  What the JavaScript \<^verbatim>\<open>Date\<close> object yields during one request: the current instant,
  the local midnight (\<^verbatim>\<open>setHours(0,0,0,0)\<close>), the start of the week
  (\<^verbatim>\<open>setDate(getDate() - getDay())\<close> at midnight), the first of the month at midnight and
  \<^verbatim>\<open>getUTCHours()\<close>. One request reads one instant.
\<close>

record clock =
  now :: int
  today :: int
  weekStart :: int
  monthStart :: int
  utcHour :: int

text \<open>A fresh primary key, as the database generates one for a created row.\<close>

definition freshId :: "nat list \<Rightarrow> nat" where
  "freshId ids = Suc (fold max ids 0)"

text \<open>
  JavaScript truthiness of an optional string: \<^verbatim>\<open>!s\<close> holds for a missing or empty
  one. \<open>whenTruthy s P\<close> is \<^verbatim>\<open>!s || P(s)\<close>.
\<close>

definition whenTruthy :: "string option \<Rightarrow> (string \<Rightarrow> bool) \<Rightarrow> bool" where
  "whenTruthy s P = (case s of None \<Rightarrow> True | Some x \<Rightarrow> x = [] \<or> P x)"

text \<open>\<^verbatim>\<open>parseInt\<close> of a decimal: truncation towards zero.\<close>

definition parseInt :: "rat \<Rightarrow> int" where
  "parseInt x = (if 0 \<le> x then \<lfloor>x\<rfloor> else \<lceil>x\<rceil>)"

section \<open>The rules engine\<close>

record rule_result =
  rr_passed :: bool
  rr_requiresApproval :: bool

text \<open>The candidate transaction handed to \<^verbatim>\<open>evaluateTransaction\<close>.\<close>

record candidate =
  c_amount :: rat
  c_category :: "string option"
  c_recipientId :: "string option"
  c_signal_strength :: "string option"

definition logAudit :: "db \<Rightarrow> nat \<Rightarrow> audit_log \<Rightarrow> db" where
  "logAudit d agentId entry = d\<lparr>auditLogs := auditLogs d @ [entry\<lparr>al_agentId := agentId\<rparr>]\<rparr>"

definition getSpendSince :: "db \<Rightarrow> nat \<Rightarrow> int \<Rightarrow> rat" where
  "getSpendSince d walletId since =
     sum_list (map t_amount
       (filter (\<lambda>t. t_walletId t = walletId \<and> t_status t = COMPLETED \<and> since \<le> t_createdAt t)
         (transactions d)))"

text \<open>
  A missing \<^verbatim>\<open>limit\<close> parses to NaN, and every comparison with NaN is false.
\<close>

definition withinLimit :: "rat \<Rightarrow> rat option \<Rightarrow> bool" where
  "withinLimit x limit = (case limit of None \<Rightarrow> False | Some l \<Rightarrow> x \<le> l)"

definition checkPerTransactionLimit :: "rat \<Rightarrow> rule_params \<Rightarrow> rule_result" where
  "checkPerTransactionLimit amount params =
     \<lparr>rr_passed = withinLimit amount (p_limit params), rr_requiresApproval = False\<rparr>"

definition checkDailyLimit :: "db \<Rightarrow> clock \<Rightarrow> nat \<Rightarrow> rat \<Rightarrow> rule_params \<Rightarrow> rule_result" where
  "checkDailyLimit d clk walletId amount params =
     (let todaySpend = getSpendSince d walletId (today clk);
          projectedTotal = todaySpend + amount
      in \<lparr>rr_passed = withinLimit projectedTotal (p_limit params), rr_requiresApproval = False\<rparr>)"

definition checkWeeklyLimit :: "db \<Rightarrow> clock \<Rightarrow> nat \<Rightarrow> rat \<Rightarrow> rule_params \<Rightarrow> rule_result" where
  "checkWeeklyLimit d clk walletId amount params =
     (let weekSpend = getSpendSince d walletId (weekStart clk);
          projectedTotal = weekSpend + amount
      in \<lparr>rr_passed = withinLimit projectedTotal (p_limit params), rr_requiresApproval = False\<rparr>)"

definition checkMonthlyLimit :: "db \<Rightarrow> clock \<Rightarrow> nat \<Rightarrow> rat \<Rightarrow> rule_params \<Rightarrow> rule_result" where
  "checkMonthlyLimit d clk walletId amount params =
     (let monthSpend = getSpendSince d walletId (monthStart clk);
          projectedTotal = monthSpend + amount
      in \<lparr>rr_passed = withinLimit projectedTotal (p_limit params), rr_requiresApproval = False\<rparr>)"

definition orEmpty :: "'a list option \<Rightarrow> 'a list" where
  "orEmpty xs = (case xs of None \<Rightarrow> [] | Some ys \<Rightarrow> ys)"

definition checkCategoryWhitelist :: "string option \<Rightarrow> rule_params \<Rightarrow> rule_result" where
  "checkCategoryWhitelist category params =
     (let allowed = orEmpty (p_categories params)
      in \<lparr>rr_passed = whenTruthy category (\<lambda>c. c \<in> set allowed),
          rr_requiresApproval = False\<rparr>)"

definition checkCategoryBlacklist :: "string option \<Rightarrow> rule_params \<Rightarrow> rule_result" where
  "checkCategoryBlacklist category params =
     (let blocked = orEmpty (p_categories params)
      in \<lparr>rr_passed = whenTruthy category (\<lambda>c. c \<notin> set blocked),
          rr_requiresApproval = False\<rparr>)"

definition checkRecipientWhitelist :: "string option \<Rightarrow> rule_params \<Rightarrow> rule_result" where
  "checkRecipientWhitelist recipientId params =
     (let allowed = orEmpty (p_recipients params)
      in \<lparr>rr_passed = whenTruthy recipientId (\<lambda>r. r \<in> set allowed),
          rr_requiresApproval = False\<rparr>)"

definition checkRecipientBlacklist :: "string option \<Rightarrow> rule_params \<Rightarrow> rule_result" where
  "checkRecipientBlacklist recipientId params =
     (let blocked = orEmpty (p_recipients params)
      in \<lparr>rr_passed = whenTruthy recipientId (\<lambda>r. r \<notin> set blocked),
          rr_requiresApproval = False\<rparr>)"

text \<open>
  A comparison with a missing (\<^verbatim>\<open>undefined\<close>) hour is false. The rule routes store
  only numbers for the two hours (\<^verbatim>\<open>validateRuleParameters\<close>), so \<open>None\<close> is the missing
  key here.
\<close>

definition checkTimeWindow :: "clock \<Rightarrow> rule_params \<Rightarrow> rule_result" where
  "checkTimeWindow clk params =
     (let currentHour = utcHour clk
      in \<lparr>rr_passed =
            (case (p_startHour params, p_endHour params) of
               (Some startHour, Some endHour) \<Rightarrow> startHour \<le> currentHour \<and> currentHour < endHour
             | _ \<Rightarrow> False),
          rr_requiresApproval = False\<rparr>)"

definition checkRequiresApproval :: "rat \<Rightarrow> rule_params \<Rightarrow> rule_result" where
  "checkRequiresApproval amount params =
     (let requiresApproval = (case p_threshold params of None \<Rightarrow> False | Some threshold \<Rightarrow> threshold < amount)
      in \<lparr>rr_passed = True, rr_requiresApproval = requiresApproval\<rparr>)"

definition checkSignalFilter :: "string option \<Rightarrow> rule_params \<Rightarrow> rule_result" where
  "checkSignalFilter signal params =
     (let allowedSignals =
            (case p_allowedSignals params of None \<Rightarrow> [''STRONG'', ''MODERATE''] | Some xs \<Rightarrow> xs);
          signalStrength = (case signal of None \<Rightarrow> ''UNKNOWN''
                            | Some x \<Rightarrow> if x = [] then ''UNKNOWN'' else x)
      in \<lparr>rr_passed = (signalStrength \<in> set allowedSignals), rr_requiresApproval = False\<rparr>)"

fun evaluateRule :: "db \<Rightarrow> clock \<Rightarrow> spend_rule \<Rightarrow> nat \<Rightarrow> candidate \<Rightarrow> rule_result" where
  "evaluateRule d clk rule walletId c =
     (let params = r_parameters rule in
      case r_ruleType rule of
        PER_TRANSACTION_LIMIT \<Rightarrow> checkPerTransactionLimit (c_amount c) params
      | DAILY_LIMIT \<Rightarrow> checkDailyLimit d clk walletId (c_amount c) params
      | WEEKLY_LIMIT \<Rightarrow> checkWeeklyLimit d clk walletId (c_amount c) params
      | MONTHLY_LIMIT \<Rightarrow> checkMonthlyLimit d clk walletId (c_amount c) params
      | CATEGORY_WHITELIST \<Rightarrow> checkCategoryWhitelist (c_category c) params
      | CATEGORY_BLACKLIST \<Rightarrow> checkCategoryBlacklist (c_category c) params
      | RECIPIENT_WHITELIST \<Rightarrow> checkRecipientWhitelist (c_recipientId c) params
      | RECIPIENT_BLACKLIST \<Rightarrow> checkRecipientBlacklist (c_recipientId c) params
      | TIME_WINDOW \<Rightarrow> checkTimeWindow clk params
      | REQUIRES_APPROVAL \<Rightarrow> checkRequiresApproval (c_amount c) params
      | SIGNAL_FILTER \<Rightarrow> checkSignalFilter (c_signal_strength c) params
      | _ \<Rightarrow> \<lparr>rr_passed = True, rr_requiresApproval = False\<rparr>)"

text \<open>
  The loop of \<^verbatim>\<open>evaluateTransaction\<close> over the fetched rules, with its three
  accumulators \<^verbatim>\<open>results\<close>, \<^verbatim>\<open>approved\<close> and \<^verbatim>\<open>requiresApproval\<close>.
\<close>

fun evaluateRules ::
  "db \<Rightarrow> clock \<Rightarrow> nat \<Rightarrow> candidate \<Rightarrow> spend_rule list \<Rightarrow>
   result_entry list \<times> bool \<times> bool \<Rightarrow> result_entry list \<times> bool \<times> bool" where
  "evaluateRules d clk walletId c [] acc = acc"
| "evaluateRules d clk walletId c (rule # rules) (results, approved, requiresApproval) =
     (let result = evaluateRule d clk rule walletId c
      in evaluateRules d clk walletId c rules
           (results @ [\<lparr>e_ruleId = r_id rule, e_ruleType = r_ruleType rule,
                         e_passed = rr_passed result\<rparr>],
            (if \<not> rr_passed result then False else approved),
            (if rr_requiresApproval result then True else requiresApproval)))"

text \<open>\<^verbatim>\<open>spendRule.findMany({ where: { walletId, active: true }, orderBy: { priority: 'desc' } })\<close>\<close>

definition activeRules :: "db \<Rightarrow> nat \<Rightarrow> spend_rule list" where
  "activeRules d walletId =
     sort_key (\<lambda>r. - r_priority r)
       (filter (\<lambda>r. r_walletId r = walletId \<and> r_active r) (spendRules d))"

section \<open>The kill switch\<close>

record condition =
  k_trigger :: bool
  k_currentValue :: "rat option"

definition pnlOf :: "txn \<Rightarrow> rat" where
  "pnlOf tx = (case t_pnl tx of None \<Rightarrow> 0 | Some p \<Rightarrow> p)"

definition lossSum :: "txn list \<Rightarrow> rat" where
  "lossSum txs = sum_list (map (\<lambda>tx. if pnlOf tx < 0 then \<bar>pnlOf tx\<bar> else 0) txs)"

definition completedSince :: "db \<Rightarrow> nat \<Rightarrow> int \<Rightarrow> txn list" where
  "completedSince d walletId since =
     filter (\<lambda>t. t_walletId t = walletId \<and> t_status t = COMPLETED \<and> since \<le> t_createdAt t)
       (transactions d)"

text \<open>
  Reading \<^verbatim>\<open>wallet.balance\<close> of a wallet that is not there throws; the route's error
  handler turns that into an internal failure. The window starts \<^verbatim>\<open>windowHours\<close> hours
  before now. For consecutive losses Prisma's \<^verbatim>\<open>take\<close> gets threshold + 5; a negative
  count, which Prisma reads from the other end, cannot arise from a threshold the create
  route accepts (at least 1) and is modelled as taking nothing.
\<close>

definition evaluateKillSwitchCondition ::
  "db \<Rightarrow> clock \<Rightarrow> kill_switch \<Rightarrow> nat \<Rightarrow> error + condition" where
  "evaluateKillSwitchCondition d clk killSwitch walletId =
     (let windowStart = now clk - ks_windowHours killSwitch * 3600000 in
      case ks_triggerType killSwitch of
        DRAWDOWN_PERCENT \<Rightarrow>
          (let txs = sort_key t_createdAt (completedSince d walletId windowStart) in
           if txs = [] then Inr \<lparr>k_trigger = False, k_currentValue = None\<rparr>
           else case find (\<lambda>w. w_id w = walletId) (wallets d) of
             None \<Rightarrow> Inl InternalFailure
           | Some wallet \<Rightarrow>
               (let currentBalance = w_balance wallet;
                    peakBalance = fold (\<lambda>tx runningBalance. runningBalance + t_amount tx)
                                    (rev txs) currentBalance;
                    drawdown = (if 0 < peakBalance
                                then (peakBalance - currentBalance) / peakBalance else 0)
                in Inr \<lparr>k_trigger = (ks_threshold killSwitch \<le> drawdown),
                        k_currentValue = Some drawdown\<rparr>))
      | LOSS_AMOUNT \<Rightarrow>
          (let totalLoss = lossSum (completedSince d walletId windowStart)
           in Inr \<lparr>k_trigger = (ks_threshold killSwitch \<le> totalLoss),
                   k_currentValue = Some totalLoss\<rparr>)
      | CONSECUTIVE_LOSSES \<Rightarrow>
          (let recentTxs =
                 take (nat (parseInt (ks_threshold killSwitch) + 5))
                   (sort_key (\<lambda>t. - t_createdAt t)
                     (filter (\<lambda>t. t_walletId t = walletId \<and> t_status t = COMPLETED
                                  \<and> t_category t = Some ''trading'') (transactions d)));
               consecutiveLosses = int (length (takeWhile (\<lambda>tx. pnlOf tx < 0) recentTxs))
           in Inr \<lparr>k_trigger = (parseInt (ks_threshold killSwitch) \<le> consecutiveLosses),
                   k_currentValue = Some (of_int consecutiveLosses)\<rparr>)
      | DAILY_LOSS_LIMIT \<Rightarrow>
          (let todayLoss = lossSum (completedSince d walletId (today clk))
           in Inr \<lparr>k_trigger = (ks_threshold killSwitch \<le> todayLoss),
                   k_currentValue = Some todayLoss\<rparr>)
      | OTHER_TRIGGER \<Rightarrow> Inr \<lparr>k_trigger = False, k_currentValue = None\<rparr>)"

datatype kill_switch_status = NotTriggered | Triggered nat

definition latched :: "kill_switch \<Rightarrow> bool" where
  "latched ks = (ks_triggered ks \<and> ks_resetAt ks = None)"

definition triggerKillSwitch :: "db \<Rightarrow> clock \<Rightarrow> nat \<Rightarrow> rat option \<Rightarrow> db" where
  "triggerKillSwitch d clk killSwitchId currentValue =
     d\<lparr>killSwitches :=
         map (\<lambda>ks. if ks_id ks = killSwitchId
                    then ks\<lparr>ks_triggered := True, ks_triggeredAt := Some (now clk),
                            ks_currentValue := currentValue\<rparr>
                    else ks) (killSwitches d)\<rparr>"

definition setWalletStatus :: "db \<Rightarrow> nat \<Rightarrow> wallet_status \<Rightarrow> db" where
  "setWalletStatus d walletId s =
     d\<lparr>wallets := map (\<lambda>w. if w_id w = walletId then w\<lparr>w_status := s\<rparr> else w) (wallets d)\<rparr>"

text \<open>
  The loop of \<^verbatim>\<open>checkKillSwitch\<close> over the active switches of the wallet: a latched
  switch blocks at once; otherwise the switch's condition is evaluated, and a condition
  that fires latches the switch, sets the wallet to \<^verbatim>\<open>KILL_SWITCHED\<close> and writes one
  audit row. \<^verbatim>\<open>wallet.update\<close> throws when the wallet is not there.
\<close>

fun checkKillSwitches ::
  "db \<Rightarrow> clock \<Rightarrow> nat \<Rightarrow> kill_switch list \<Rightarrow> (error + kill_switch_status) \<times> db" where
  "checkKillSwitches d clk walletId [] = (Inr NotTriggered, d)"
| "checkKillSwitches d clk walletId (ks # rest) =
     (if ks_triggered ks \<and> ks_resetAt ks = None then (Inr (Triggered (ks_id ks)), d)
      else case evaluateKillSwitchCondition d clk ks walletId of
        Inl e \<Rightarrow> (Inl e, d)
      | Inr shouldTrigger \<Rightarrow>
          if k_trigger shouldTrigger then
            (let d1 = triggerKillSwitch d clk (ks_id ks) (k_currentValue shouldTrigger) in
             case find (\<lambda>w. w_id w = walletId) (wallets d1) of
               None \<Rightarrow> (Inl InternalFailure, d1)
             | Some wallet \<Rightarrow>
                 (let d2 = setWalletStatus d1 walletId KILL_SWITCHED;
                      d3 = logAudit d2 (w_agentId wallet)
                             \<lparr>al_agentId = w_agentId wallet,
                              al_action = ''KILL_SWITCH_TRIGGERED'', al_resource = ''wallet'',
                              al_resourceId = walletId, al_decision = BLOCKED\<rparr>
                  in (Inr (Triggered (ks_id ks)), d3)))
          else checkKillSwitches d clk walletId rest)"

definition checkKillSwitch ::
  "db \<Rightarrow> clock \<Rightarrow> nat \<Rightarrow> (error + kill_switch_status) \<times> db" where
  "checkKillSwitch d clk walletId =
     checkKillSwitches d clk walletId
       (filter (\<lambda>ks. ks_walletId ks = walletId \<and> ks_active ks) (killSwitches d))"

definition evaluateTransaction ::
  "db \<Rightarrow> clock \<Rightarrow> nat \<Rightarrow> candidate \<Rightarrow> (error + evaluation) \<times> db" where
  "evaluateTransaction d clk walletId c =
     (case checkKillSwitch d clk walletId of
        (Inl e, d1) \<Rightarrow> (Inl e, d1)
      | (Inr (Triggered killSwitchId), d1) \<Rightarrow>
          (Inr \<lparr>ev_approved = False, ev_killSwitched = True, ev_requiresApproval = False,
                ev_results = [\<lparr>e_ruleId = killSwitchId, e_ruleType = KILL_SWITCH,
                               e_passed = False\<rparr>]\<rparr>, d1)
      | (Inr NotTriggered, d1) \<Rightarrow>
          (case evaluateRules d1 clk walletId c (activeRules d1 walletId) ([], True, False) of
             (results, approved, requiresApproval) \<Rightarrow>
               (Inr \<lparr>ev_approved = approved, ev_killSwitched = False,
                     ev_requiresApproval = requiresApproval, ev_results = results\<rparr>, d1)))"

text \<open>\<^verbatim>\<open>resetKillSwitch\<close>, the operator's reset (the caller's ownership is its guard).\<close>

definition resetKillSwitch :: "db \<Rightarrow> clock \<Rightarrow> nat \<Rightarrow> nat \<Rightarrow> error + db" where
  "resetKillSwitch d clk killSwitchId ownerId =
     (case find (\<lambda>ks. ks_id ks = killSwitchId) (killSwitches d) of
        None \<Rightarrow> Inl InternalFailure
      | Some ks \<Rightarrow>
          (case find (\<lambda>w. w_id w = ks_walletId ks) (wallets d) of
             None \<Rightarrow> Inl InternalFailure
           | Some wallet \<Rightarrow>
               (case find (\<lambda>a. a_id a = w_agentId wallet) (agents d) of
                  None \<Rightarrow> Inl InternalFailure
                | Some ag \<Rightarrow>
                    if a_ownerId ag \<noteq> ownerId then Inl InternalFailure
                    else
                      (let d1 = d\<lparr>killSwitches :=
                                   map (\<lambda>k. if ks_id k = killSwitchId
                                             then k\<lparr>ks_triggered := False, ks_triggeredAt := None,
                                                    ks_resetAt := Some (now clk),
                                                    ks_currentValue := None\<rparr>
                                             else k) (killSwitches d)\<rparr>;
                           d2 = setWalletStatus d1 (ks_walletId ks) ACTIVE
                       in Inr (logAudit d2 (w_agentId wallet)
                                 \<lparr>al_agentId = w_agentId wallet, al_action = ''KILL_SWITCH_RESET'',
                                  al_resource = ''kill_switch'', al_resourceId = killSwitchId,
                                  al_decision = ALLOWED\<rparr>)))))"

section \<open>The transaction route\<close>

text \<open>
  \<^verbatim>\<open>req.auth\<close> as the authentication middleware leaves it, and the body of
  \<^verbatim>\<open>POST /api/transactions\<close>. Of \<^verbatim>\<open>metadata\<close> the model keeps \<^verbatim>\<open>pnl\<close>, the one key
  the server reads back.
\<close>

datatype auth = Owner nat | Agent nat

record request =
  q_walletId :: "nat option"
  q_amount :: "rat option"
  q_recipientId :: "string option"
  q_category :: "string option"
  q_description :: "string option"
  q_pnl :: "rat option"

datatype response =
    BadRequest string
  | NotFound
  | Forbidden
  | ServerError
  | Created "txn option" evaluation
  | RejectedByRules txn evaluation
  | Accepted txn evaluation

definition canAccessAgent :: "db \<Rightarrow> auth \<Rightarrow> nat \<Rightarrow> bool" where
  "canAccessAgent d au agentId =
     (case au of
        Owner ownerId \<Rightarrow> find (\<lambda>a. a_id a = agentId \<and> a_ownerId a = ownerId) (agents d) \<noteq> None
      | Agent aid \<Rightarrow> aid = agentId)"

definition findWallet :: "db \<Rightarrow> nat \<Rightarrow> wallet option" where
  "findWallet d walletId = find (\<lambda>w. w_id w = walletId) (wallets d)"

definition findTransaction :: "db \<Rightarrow> nat \<Rightarrow> txn option" where
  "findTransaction d transactionId = find (\<lambda>t. t_id t = transactionId) (transactions d)"

text \<open>
  \<^verbatim>\<open>executeTransaction\<close>: debit the wallet, then mark the transaction completed. Reading
  a field of a missing transaction and updating a missing wallet both throw.
\<close>

definition executeTransaction :: "db \<Rightarrow> clock \<Rightarrow> nat \<Rightarrow> (error + unit) \<times> db" where
  "executeTransaction d clk transactionId =
     (case findTransaction d transactionId of
        None \<Rightarrow> (Inl InternalFailure, d)
      | Some transaction \<Rightarrow>
          (case findWallet d (t_walletId transaction) of
             None \<Rightarrow> (Inl InternalFailure, d)
           | Some _ \<Rightarrow>
               (let d1 = d\<lparr>wallets :=
                            map (\<lambda>w. if w_id w = t_walletId transaction
                                      then w\<lparr>w_balance := w_balance w - t_amount transaction\<rparr>
                                      else w) (wallets d)\<rparr>;
                    d2 = d1\<lparr>transactions :=
                            map (\<lambda>t. if t_id t = transactionId
                                      then t\<lparr>t_status := COMPLETED, t_completedAt := Some (now clk)\<rparr>
                                      else t) (transactions d1)\<rparr>
                in (Inr (), d2))))"

definition postTransaction :: "db \<Rightarrow> clock \<Rightarrow> auth \<Rightarrow> request \<Rightarrow> response \<times> db" where
  "postTransaction d clk au req =
     (case (q_walletId req, q_amount req) of
        (Some walletId, Some amount) \<Rightarrow>
          if amount = 0 then (BadRequest ''walletId and amount are required'', d)
          else if amount \<le> 0 then (BadRequest ''Amount must be positive'', d)
          else
            (case findWallet d walletId of
               None \<Rightarrow> (NotFound, d)
             | Some wallet \<Rightarrow>
                 if \<not> canAccessAgent d au (w_agentId wallet) then (Forbidden, d)
                 else if w_status wallet \<noteq> ACTIVE then (BadRequest ''Wallet is not active'', d)
                 else if w_balance wallet < amount then (BadRequest ''Insufficient balance'', d)
                 else
                   (case evaluateTransaction d clk walletId
                           \<lparr>c_amount = amount, c_category = q_category req,
                            c_recipientId = q_recipientId req, c_signal_strength = None\<rparr> of
                      (Inl e, d1) \<Rightarrow> (ServerError, d1)
                    | (Inr ruleEvaluation, d1) \<Rightarrow>
                        (let status =
                               (if \<not> ev_approved ruleEvaluation then REJECTED
                                else if ev_requiresApproval ruleEvaluation then AWAITING_APPROVAL
                                else APPROVED);
                             transaction =
                               \<lparr>t_id = freshId (map t_id (transactions d1)), t_walletId = walletId,
                                t_amount = amount, t_recipientId = q_recipientId req,
                                t_category = q_category req, t_description = q_description req,
                                t_status = status, t_ruleCheckResults = Some ruleEvaluation,
                                t_pnl = q_pnl req, t_createdAt = now clk, t_completedAt = None\<rparr>;
                             d2 = d1\<lparr>transactions := transactions d1 @ [transaction]\<rparr>
                         in if status = APPROVED then
                              (case executeTransaction d2 clk (t_id transaction) of
                                 (Inl e, d3) \<Rightarrow> (ServerError, d3)
                               | (Inr _, d3) \<Rightarrow>
                                   (Created (findTransaction d3 (t_id transaction)) ruleEvaluation, d3))
                            else if status = REJECTED then
                              (RejectedByRules transaction ruleEvaluation, d2)
                            else (Accepted transaction ruleEvaluation, d2))))
      | _ \<Rightarrow> (BadRequest ''walletId and amount are required'', d))"

subsection \<open>The deposit route\<close>

text \<open>
  The handler of \<^verbatim>\<open>POST /api/wallets/:id/deposit\<close>: the balance is incremented and the
  deposit is logged as a transaction of category "deposit" and status \<^verbatim>\<open>COMPLETED\<close>. A
  missing \<^verbatim>\<open>source\<close> is "manual".
\<close>

datatype deposit_response =
    DepositBadRequest string
  | DepositNotFound
  | DepositForbidden
  | DepositSuccessful rat

definition postDeposit ::
  "db \<Rightarrow> clock \<Rightarrow> auth \<Rightarrow> nat \<Rightarrow> rat option \<Rightarrow> string option \<Rightarrow> deposit_response \<times> db"
  where
  "postDeposit d clk au walletId amountField sourceField =
     (case amountField of
        None \<Rightarrow> (DepositBadRequest ''Valid positive amount is required'', d)
      | Some amount \<Rightarrow>
          if amount \<le> 0 then (DepositBadRequest ''Valid positive amount is required'', d)
          else
            (case findWallet d walletId of
               None \<Rightarrow> (DepositNotFound, d)
             | Some wallet \<Rightarrow>
                 if w_status wallet \<noteq> ACTIVE
                 then (DepositBadRequest ''Cannot deposit to non-active wallet'', d)
                 else if \<not> canAccessAgent d au (w_agentId wallet) then (DepositForbidden, d)
                 else
                   (let source = (case sourceField of None \<Rightarrow> ''manual'' | Some x \<Rightarrow> x);
                        d1 = d\<lparr>wallets :=
                               map (\<lambda>w. if w_id w = walletId
                                         then w\<lparr>w_balance := w_balance w + amount\<rparr>
                                         else w) (wallets d)\<rparr>;
                        d2 = d1\<lparr>transactions := transactions d1 @
                               [\<lparr>t_id = freshId (map t_id (transactions d1)),
                                 t_walletId = walletId, t_amount = amount, t_recipientId = None,
                                 t_category = Some ''deposit'',
                                 t_description = Some (''Deposit from '' @ source),
                                 t_status = COMPLETED, t_ruleCheckResults = None, t_pnl = None,
                                 t_createdAt = now clk, t_completedAt = Some (now clk)\<rparr>]\<rparr>
                    in (DepositSuccessful (w_balance wallet + amount), d2))))"

section \<open>The dead-man switch\<close>

text \<open>
  The in-process state of the service: the set \<^verbatim>\<open>_frozenAgents\<close> and the map
  \<^verbatim>\<open>_txWindows\<close> from an agent to its recent transaction instants. The exported
  singleton has no notification handler, so the alert hooks do nothing.
\<close>

record dms_state =
  frozenAgents :: "nat set"
  txWindows :: "nat \<Rightarrow> int list option"

datatype block_reason = AgentFrozen | VelocityLimit | VendorDiversity | SpendAnomaly

datatype gate = Allow | Block block_reason

definition getConfig :: "db \<Rightarrow> nat \<Rightarrow> dms_config option" where
  "getConfig d agentId = find (\<lambda>c. dc_agentId c = agentId) (dmsConfigs d)"

definition findLineage :: "db \<Rightarrow> nat \<Rightarrow> lineage option" where
  "findLineage d agentId = find (\<lambda>l. l_agentId l = agentId) (lineages d)"

definition setAgentStatus :: "db \<Rightarrow> nat \<Rightarrow> agent_status \<Rightarrow> db" where
  "setAgentStatus d agentId s =
     d\<lparr>agents := map (\<lambda>a. if a_id a = agentId then a\<lparr>a_status := s\<rparr> else a) (agents d)\<rparr>"

definition setLineageStatus :: "db \<Rightarrow> nat \<Rightarrow> lineage_status \<Rightarrow> db" where
  "setLineageStatus d agentId s =
     d\<lparr>lineages := map (\<lambda>l. if l_agentId l = agentId then l\<lparr>l_status := s\<rparr> else l) (lineages d)\<rparr>"

text \<open>\<^verbatim>\<open>x || dflt\<close> on a number that may be missing: a missing or zero one gives the default.\<close>

definition orDefault :: "rat option \<Rightarrow> rat \<Rightarrow> rat" where
  "orDefault x dflt = (case x of None \<Rightarrow> dflt | Some v \<Rightarrow> if v = 0 then dflt else v)"

text \<open>The throttle action: every active daily limit of the agent's wallets is cut to a tenth.\<close>

definition throttleRule :: "spend_rule \<Rightarrow> db \<Rightarrow> db" where
  "throttleRule rule d =
     (let current = orDefault (p_limit (r_parameters rule)) 1000
      in d\<lparr>spendRules :=
             map (\<lambda>r. if r_id r = r_id rule
                       then r\<lparr>r_parameters :=
                                (r_parameters rule)\<lparr>p_limit := Some (current * (1 / 10)),
                                                    p_throttled := True\<rparr>\<rparr>
                       else r) (spendRules d)\<rparr>)"

definition throttleWallet :: "wallet \<Rightarrow> db \<Rightarrow> db" where
  "throttleWallet wallet d =
     fold throttleRule
       (filter (\<lambda>r. r_walletId r = w_id wallet \<and> r_ruleType r = DAILY_LIMIT \<and> r_active r)
          (spendRules d)) d"

definition throttle :: "db \<Rightarrow> nat \<Rightarrow> db" where
  "throttle d agentId = fold throttleWallet (filter (\<lambda>w. w_agentId w = agentId) (wallets d)) d"

text \<open>
  The cascade loop of \<^verbatim>\<open>_trigger\<close> over \<^verbatim>\<open>lineage.childrenIds\<close>: each child is added to
  the frozen set, its agent row gets the status, and its id is pushed on \<^verbatim>\<open>cascadedTo\<close>.
\<close>

fun cascade ::
  "agent_status \<Rightarrow> nat list \<Rightarrow> db \<times> dms_state \<times> nat list \<Rightarrow> db \<times> dms_state \<times> nat list" where
  "cascade s [] acc = acc"
| "cascade s (childId # rest) (d, m, cascadedTo) =
     cascade s rest
       (setAgentStatus d childId s,
        m\<lparr>frozenAgents := insert childId (frozenAgents m)\<rparr>,
        cascadedTo @ [childId])"

definition cascadeToChildren :: "dms_config option \<Rightarrow> bool" where
  "cascadeToChildren config = (case config of None \<Rightarrow> False | Some c \<Rightarrow> dc_cascadeToChildren c)"

definition trigger ::
  "db \<Rightarrow> dms_state \<Rightarrow> nat \<Rightarrow> string \<Rightarrow> dms_action \<Rightarrow> dms_config option \<Rightarrow> db \<times> dms_state" where
  "trigger d m agentId triggerType action config =
     (case
        (case action of
           Alert \<Rightarrow> (d, m, [])
         | Throttle \<Rightarrow> (throttle d agentId, m, [])
         | Freeze \<Rightarrow>
             (let m1 = m\<lparr>frozenAgents := insert agentId (frozenAgents m)\<rparr>;
                  d1 = setAgentStatus d agentId AGENT_FROZEN
              in if cascadeToChildren config then
                   (case findLineage d1 agentId of
                      None \<Rightarrow> (d1, m1, [])
                    | Some lineage \<Rightarrow> cascade AGENT_FROZEN (l_childrenIds lineage) (d1, m1, []))
                 else (d1, m1, []))
         | Terminate \<Rightarrow>
             (let m1 = m\<lparr>frozenAgents := insert agentId (frozenAgents m)\<rparr>;
                  d1 = setAgentStatus d agentId AGENT_TERMINATED;
                  d2 = setLineageStatus d1 agentId LIN_TERMINATED
              in if cascadeToChildren config then
                   (case findLineage d2 agentId of
                      None \<Rightarrow> (d2, m1, [])
                    | Some lineage \<Rightarrow> cascade AGENT_TERMINATED (l_childrenIds lineage) (d2, m1, []))
                 else (d2, m1, []))
         | OtherAction \<Rightarrow> (d, m, []))
      of (d', m', cascadedTo) \<Rightarrow>
        (d'\<lparr>dmsEvents := dmsEvents d' @
              [\<lparr>de_agentId = agentId, de_triggerType = triggerType, de_actionTaken = action,
                de_cascadedTo = cascadedTo, de_resolved = False\<rparr>]\<rparr>, m'))"

text \<open>The Prisma filter \<^verbatim>\<open>wallet: { agentId }\<close> on a transaction.\<close>

definition ofAgent :: "db \<Rightarrow> nat \<Rightarrow> txn \<Rightarrow> bool" where
  "ofAgent d agentId t =
     (case find (\<lambda>w. w_id w = t_walletId t) (wallets d) of
        None \<Rightarrow> False | Some w \<Rightarrow> w_agentId w = agentId)"

text \<open>
  \<^verbatim>\<open>_getHistoricalAverage\<close>: the completed spend of the seven windows before the current
  one, averaged over the windows with a positive total. The division is by zero only when
  no total is positive and one is negative; JavaScript then yields \<^verbatim>\<open>-Infinity\<close> and HOL
  yields 0, and both fail the caller's test \<^verbatim>\<open>historicalAvg > 0\<close>.
\<close>

definition getHistoricalAverage :: "db \<Rightarrow> clock \<Rightarrow> nat \<Rightarrow> int \<Rightarrow> rat" where
  "getHistoricalAverage d clk agentId windowMinutes =
     (let windowMs = windowMinutes * 60000;
          totals = map (\<lambda>i. sum_list (map t_amount
                     (filter (\<lambda>t. ofAgent d agentId t \<and> t_status t = COMPLETED
                                  \<and> now clk - windowMs * (i + 1) \<le> t_createdAt t
                                  \<and> t_createdAt t \<le> now clk - windowMs * i)
                        (transactions d)))) [1..7]
      in if list_all (\<lambda>t. t = 0) totals then 0
         else sum_list totals / of_nat (length (filter (\<lambda>t. 0 < t) totals)))"

text \<open>\<^verbatim>\<open>DeadManSwitch.evaluateTransaction\<close>, the gate "called before every transaction".\<close>

definition dmsEvaluateTransaction ::
  "db \<Rightarrow> dms_state \<Rightarrow> clock \<Rightarrow> nat \<Rightarrow> rat \<Rightarrow> string option \<Rightarrow> gate \<times> db \<times> dms_state" where
  "dmsEvaluateTransaction d m clk agentId amount vendor =
     (if agentId \<in> frozenAgents m then (Block AgentFrozen, d, m)
      else case getConfig d agentId of
        None \<Rightarrow> (Allow, d, m)
      | Some config \<Rightarrow>
          if \<not> dc_enabled config then (Allow, d, m)
          else
            (let window = (case txWindows m agentId of None \<Rightarrow> [] | Some w \<Rightarrow> w);
                 m0 = m\<lparr>txWindows := (txWindows m)(agentId \<mapsto> window)\<rparr>;
                 oneMinAgo = now clk - 60000;
                 recentCount = int (length (filter (\<lambda>t. oneMinAgo < t) window))
             in if dc_maxTxPerMinute config \<le> recentCount then
                  (case trigger d m0 agentId ''velocity'' (dc_onAnomaly config) (Some config) of
                     (d1, m1) \<Rightarrow> (Block VelocityLimit, d1, m1))
                else
                  (let recentVendorTxs =
                         concat (map (\<lambda>t. case t_description t of None \<Rightarrow> [] | Some s \<Rightarrow> [s])
                            (filter (\<lambda>t. ofAgent d agentId t \<and> now clk - 3600000 \<le> t_createdAt t)
                               (transactions d)))
                   in if (case vendor of
                            None \<Rightarrow> False
                          | Some v \<Rightarrow> v \<noteq> [] \<and> dc_maxUniqueVendorsPerHour config
                                        < int (length (remdups (recentVendorTxs @ [v])))) then
                        (case trigger d m0 agentId ''velocity'' (dc_onAnomaly config) (Some config) of
                           (d1, m1) \<Rightarrow> (Block VendorDiversity, d1, m1))
                      else
                        (let windowStart = now clk - dc_anomalyWindowMinutes config * 60000;
                             currentWindowTotal =
                               sum_list (map t_amount
                                 (filter (\<lambda>t. ofAgent d agentId t \<and> windowStart \<le> t_createdAt t
                                              \<and> t_status t = COMPLETED) (transactions d)))
                               + amount;
                             historicalAvg =
                               getHistoricalAverage d clk agentId (dc_anomalyWindowMinutes config);
                             anomalous = (0 < historicalAvg \<and>
                               historicalAvg * dc_anomalySpendMultiplier config < currentWindowTotal);
                             dm = (if anomalous
                                   then trigger d m0 agentId ''anomaly'' (dc_onAnomaly config) (Some config)
                                   else (d, m0))
                         in if anomalous \<and> dc_onAnomaly config \<in> {Freeze, Terminate} then
                              (Block SpendAnomaly, fst dm, snd dm)
                            else
                              (Allow, fst dm,
                               (snd dm)\<lparr>txWindows := (txWindows (snd dm))
                                  (agentId \<mapsto> filter (\<lambda>t. now clk - 3600000 < t)
                                                 (window @ [now clk]))\<rparr>)))))"

section \<open>The spawn governor\<close>

text \<open>
  \<^verbatim>\<open>childPolicyOverrides\<close>, which the route takes from the request body unvalidated. The
  code tests each key against \<^verbatim>\<open>undefined\<close> only, so a key of the JSON body is absent,
  \<^verbatim>\<open>null\<close> or a value; \<^verbatim>\<open>Math.min\<close> reads \<^verbatim>\<open>null\<close> as the number 0. The record has
  the four keys \<^verbatim>\<open>_deriveChildPolicy\<close> reads; values of another JSON type than the one
  expected are not modelled.
\<close>

datatype 'a json_key = Absent | JsonNull | Present 'a

definition toNumber :: "rat json_key \<Rightarrow> rat" where
  "toNumber x = (case x of Present v \<Rightarrow> v | _ \<Rightarrow> 0)"

record overrides =
  o_dailyLimit :: "rat json_key"
  o_maxSpendPerTx :: "rat json_key"
  o_vendorAllowlist :: "string list json_key"
  o_daily_limit_ratio :: "rat json_key"

definition defaultSpawnPolicy :: spawn_policy where
  "defaultSpawnPolicy =
     \<lparr>sp_maxSpendRatio = 1, sp_maxTransactionRatio = 1, sp_maxSpawnDepth = 3,
      sp_maxChildren = 10, sp_childrenCanSpawn = True\<rparr>"

text \<open>
  The local object \<^verbatim>\<open>parentRules\<close> of \<^verbatim>\<open>_deriveChildPolicy\<close>. The loops assign
  \<^verbatim>\<open>dailyLimit\<close> and \<^verbatim>\<open>maxSpendPerTx\<close>, the last matching rule winning; no statement
  assigns \<^verbatim>\<open>vendorAllowlist\<close>.
\<close>

record parent_rules =
  pr_dailyLimit :: "rat option"
  pr_maxSpendPerTx :: "rat option"
  pr_vendorAllowlist :: "string list option"

definition scanRule :: "spend_rule \<Rightarrow> parent_rules \<Rightarrow> parent_rules" where
  "scanRule rule parentRules =
     (let pr1 = (if r_ruleType rule = DAILY_LIMIT
                 then parentRules\<lparr>pr_dailyLimit :=
                        Some (orDefault (p_limit (r_parameters rule)) 1000)\<rparr>
                 else parentRules)
      in if r_ruleType rule = PER_TRANSACTION_LIMIT
         then pr1\<lparr>pr_maxSpendPerTx := Some (orDefault (p_limit (r_parameters rule)) 100)\<rparr>
         else pr1)"

text \<open>\<^verbatim>\<open>parent.wallets\<close> with \<^verbatim>\<open>include: { rules: true }\<close>: each wallet with all its rules.\<close>

definition parentWallets :: "db \<Rightarrow> nat \<Rightarrow> (wallet \<times> spend_rule list) list" where
  "parentWallets d parentId =
     map (\<lambda>w. (w, filter (\<lambda>r. r_walletId r = w_id w) (spendRules d)))
       (filter (\<lambda>w. w_agentId w = parentId) (wallets d))"

definition scanWallets :: "(wallet \<times> spend_rule list) list \<Rightarrow> parent_rules" where
  "scanWallets ws =
     fold (\<lambda>(wallet, rules) parentRules. fold scanRule rules parentRules) ws
       \<lparr>pr_dailyLimit = None, pr_maxSpendPerTx = None, pr_vendorAllowlist = None\<rparr>"

text \<open>
  \<^verbatim>\<open>_deriveChildPolicy\<close>. Each override is applied when its key is not
  \<^verbatim>\<open>undefined\<close>. In the allowlist branch a \<^verbatim>\<open>null\<close> override has no \<^verbatim>\<open>filter\<close> method:
  the call throws.
\<close>

definition deriveChildPolicy ::
  "(wallet \<times> spend_rule list) list \<Rightarrow> spawn_policy \<Rightarrow> overrides \<Rightarrow> error + child_policy"
  where
  "deriveChildPolicy parentWs spawnPolicy ov =
     (let parentRules = scanWallets parentWs;
          child0 = \<lparr>cp_dailyLimit =
                      orDefault (pr_dailyLimit parentRules) 1000 * sp_maxSpendRatio spawnPolicy,
                    cp_maxSpendPerTx =
                      orDefault (pr_maxSpendPerTx parentRules) 100
                        * sp_maxTransactionRatio spawnPolicy,
                    cp_vendorAllowlist = orEmpty (pr_vendorAllowlist parentRules)\<rparr>;
          child1 = (if o_dailyLimit ov \<noteq> Absent
                    then child0\<lparr>cp_dailyLimit :=
                           min (toNumber (o_dailyLimit ov)) (cp_dailyLimit child0)\<rparr>
                    else child0);
          child2 = (if o_maxSpendPerTx ov \<noteq> Absent
                    then child1\<lparr>cp_maxSpendPerTx :=
                           min (toNumber (o_maxSpendPerTx ov)) (cp_maxSpendPerTx child1)\<rparr>
                    else child1);
          child3 = (if o_vendorAllowlist ov \<noteq> Absent
                       \<and> 0 < length (orEmpty (pr_vendorAllowlist parentRules))
                    then (case o_vendorAllowlist ov of
                            Present vs \<Rightarrow>
                              Inr (child2\<lparr>cp_vendorAllowlist :=
                                     filter (\<lambda>v. v \<in> set (orEmpty (pr_vendorAllowlist parentRules)))
                                       vs\<rparr>)
                          | _ \<Rightarrow> Inl InternalFailure)
                    else Inr child2)
      in case child3 of
           Inl e \<Rightarrow> Inl e
         | Inr child \<Rightarrow>
             if o_daily_limit_ratio ov \<noteq> Absent
             then Inr (child\<lparr>cp_dailyLimit :=
                         cp_dailyLimit child * min (toNumber (o_daily_limit_ratio ov)) 1\<rparr>)
             else Inr child)"

definition restrictSpawnPolicy :: "spawn_policy \<Rightarrow> spawn_policy" where
  "restrictSpawnPolicy parentPolicy =
     parentPolicy\<lparr>sp_maxSpawnDepth := max 0 (sp_maxSpawnDepth parentPolicy - 1)\<rparr>"

text \<open>
  The outcome of \<^verbatim>\<open>authorizeSpawn\<close>: \<^verbatim>\<open>authorized: false\<close> with its reason, an exception,
  or \<^verbatim>\<open>authorized: true\<close> with the inherited policy, the child's depth and its root.
\<close>

datatype spawn_result =
    SpawnRefused string
  | SpawnFailed error
  | SpawnAuthorized child_policy int nat

definition authorizeSpawn :: "db \<Rightarrow> nat \<Rightarrow> nat \<Rightarrow> overrides \<Rightarrow> spawn_result \<times> db" where
  "authorizeSpawn d parentAgentId childAgentId childPolicyOverrides =
     (case find (\<lambda>a. a_id a = parentAgentId) (agents d) of
        None \<Rightarrow> (SpawnRefused ''Parent agent not found'', d)
      | Some parent \<Rightarrow>
          if a_status parent \<in> {AGENT_FROZEN, AGENT_TERMINATED, AGENT_KILLED}
          then (SpawnRefused ''Parent agent cannot spawn'', d)
          else
            (let created = \<lparr>l_agentId = parentAgentId, l_parentId = None, l_rootId = parentAgentId,
                            l_depth = 0, l_childrenIds = [], l_status = LIN_ACTIVE,
                            l_spawnPolicy = None\<rparr>;
                 d1 = (case findLineage d parentAgentId of
                         None \<Rightarrow> d\<lparr>lineages := lineages d @ [created]\<rparr> | Some _ \<Rightarrow> d);
                 parentLineage = (case findLineage d parentAgentId of
                                    None \<Rightarrow> created | Some l \<Rightarrow> l);
                 spawnPolicy = (case l_spawnPolicy parentLineage of
                                  None \<Rightarrow> defaultSpawnPolicy | Some p \<Rightarrow> p)
             in if sp_maxSpawnDepth spawnPolicy \<le> l_depth parentLineage
                then (SpawnRefused ''Max spawn depth reached'', d1)
                else if sp_maxChildren spawnPolicy \<le> int (length (l_childrenIds parentLineage))
                then (SpawnRefused ''Max children reached'', d1)
                else if 0 < l_depth parentLineage \<and> \<not> sp_childrenCanSpawn spawnPolicy
                then (SpawnRefused ''Parent policy prohibits further spawning'', d1)
                else if findLineage d1 childAgentId \<noteq> None
                then (SpawnRefused ''Agent already has a lineage record'', d1)
                else
                  (case deriveChildPolicy (parentWallets d parentAgentId) spawnPolicy
                          childPolicyOverrides of
                     Inl e \<Rightarrow> (SpawnFailed e, d1)
                   | Inr inheritedPolicy \<Rightarrow>
                  (let childLineage =
                         \<lparr>l_agentId = childAgentId, l_parentId = Some parentAgentId,
                          l_rootId = l_rootId parentLineage, l_depth = l_depth parentLineage + 1,
                          l_childrenIds = [], l_status = LIN_ACTIVE,
                          l_spawnPolicy = Some (restrictSpawnPolicy spawnPolicy)\<rparr>;
                       d2 = d1\<lparr>lineages := lineages d1 @ [childLineage]\<rparr>;
                       d3 = d2\<lparr>lineages :=
                              map (\<lambda>l. if l_agentId l = parentAgentId
                                        then l\<lparr>l_childrenIds := l_childrenIds l @ [childAgentId]\<rparr>
                                        else l) (lineages d2)\<rparr>;
                       d4 = d3\<lparr>spawnEvents := spawnEvents d3 @
                              [\<lparr>se_parentId = parentAgentId, se_childId = childAgentId,
                                se_depth = l_depth childLineage,
                                se_inheritedPolicy = Some inheritedPolicy,
                                se_authorized = True\<rparr>]\<rparr>
                   in (SpawnAuthorized inheritedPolicy (l_depth childLineage)
                         (l_rootId childLineage), d4)))))"

section \<open>The cross-agent governor\<close>











text \<open>The status the freeze and terminate actions give an agent.\<close>

definition actionStatus :: "dms_action \<Rightarrow> agent_status" where
  "actionStatus action = (if action = Terminate then AGENT_TERMINATED else AGENT_FROZEN)"




section \<open>Notions used in the statements about the kill-switch latch\<close>

text \<open>A run of admissions, each with the clock and the caller of its request.\<close>

fun admissions :: "db \<Rightarrow> (clock \<times> auth \<times> request) list \<Rightarrow> response list \<times> db" where
  "admissions d [] = ([], d)"
| "admissions d ((clk, au, req) # rest) =
     (case postTransaction d clk au req of
        (r, d1) \<Rightarrow> (case admissions d1 rest of (rs, d2) \<Rightarrow> (r # rs, d2)))"

text \<open>
  An admission that moved no funds: refused at a precondition with nothing written, or
  persisted with an evaluation that is not approved and marked \<^verbatim>\<open>killSwitched\<close>.
\<close>

definition haltedBySwitch :: "db \<Rightarrow> response \<times> db \<Rightarrow> bool" where
  "haltedBySwitch d rd =
     (case fst rd of
        BadRequest msg \<Rightarrow> snd rd = d
      | NotFound \<Rightarrow> snd rd = d
      | Forbidden \<Rightarrow> snd rd = d
      | RejectedByRules tx ev \<Rightarrow>
          ev_killSwitched ev \<and> \<not> ev_approved ev \<and> t_ruleCheckResults tx = Some ev
          \<and> t_completedAt tx = None \<and> transactions (snd rd) = transactions d @ [tx]
      | _ \<Rightarrow> False)"

definition activeLatchOn :: "db \<Rightarrow> nat \<Rightarrow> bool" where
  "activeLatchOn d w =
     (\<exists>ks \<in> set (killSwitches d). ks_walletId ks = w \<and> ks_active ks \<and> latched ks)"

text \<open>The same, read off the response alone.\<close>

definition halted :: "response \<Rightarrow> bool" where
  "halted r =
     (case r of
        BadRequest msg \<Rightarrow> True
      | NotFound \<Rightarrow> True
      | Forbidden \<Rightarrow> True
      | RejectedByRules tx ev \<Rightarrow> ev_killSwitched ev \<and> \<not> ev_approved ev
      | _ \<Rightarrow> False)"

section \<open>Example states\<close>

text \<open>Concrete databases, clocks and requests the closed theorems below evaluate.\<close>

definition noParams :: rule_params where
  "noParams = \<lparr>p_limit = None, p_categories = None, p_recipients = None, p_startHour = None,
     p_endHour = None, p_threshold = None, p_allowedSignals = None, p_throttled = False\<rparr>"

definition emptyDb :: db where
  "emptyDb = \<lparr>wallets = [], agents = [], spendRules = [], killSwitches = [], transactions = [],
     auditLogs = [], lineages = [], spawnEvents = [], dmsConfigs = [], dmsEvents = [],
     crossAgentPolicies = [], agentGroups = [], crossAgentTransactions = []\<rparr>"

definition exWallet :: wallet where
  "exWallet = \<lparr>w_id = 1, w_agentId = 10, w_balance = 1000, w_status = ACTIVE\<rparr>"

definition exDb :: db where
  "exDb = emptyDb\<lparr>wallets := [exWallet],
     agents := [\<lparr>a_id = 10, a_ownerId = 100, a_status = AGENT_ACTIVE\<rparr>],
     spendRules :=
       [\<lparr>r_id = 1, r_walletId = 1, r_ruleType = REQUIRES_APPROVAL,
         r_parameters = noParams\<lparr>p_threshold := Some 75\<rparr>, r_active = True, r_priority = 0\<rparr>,
        \<lparr>r_id = 2, r_walletId = 1, r_ruleType = PER_TRANSACTION_LIMIT,
         r_parameters = noParams\<lparr>p_limit := Some 200\<rparr>, r_active = True, r_priority = 5\<rparr>]\<rparr>"

definition exClock :: clock where
  "exClock = \<lparr>now = 90000000, today = 86400000, weekStart = 0, monthStart = 0, utcHour = 1\<rparr>"

definition exRequest :: "rat \<Rightarrow> request" where
  "exRequest a = \<lparr>q_walletId = Some 1, q_amount = Some a, q_recipientId = None,
     q_category = Some ''advertising'', q_description = None, q_pnl = None\<rparr>"

definition exCandidate :: "rat \<Rightarrow> candidate" where
  "exCandidate a = \<lparr>c_amount = a, c_category = Some ''advertising'', c_recipientId = None,
     c_signal_strength = None\<rparr>"

text \<open>
  The example flow of the README: a wallet with a daily limit of 500, into which the owner
  then deposits 1000.
\<close>

definition readmeDb :: db where
  "readmeDb = emptyDb\<lparr>
     wallets := [\<lparr>w_id = 1, w_agentId = 10, w_balance = 0, w_status = ACTIVE\<rparr>],
     agents := [\<lparr>a_id = 10, a_ownerId = 100, a_status = AGENT_ACTIVE\<rparr>],
     spendRules := [\<lparr>r_id = 1, r_walletId = 1, r_ruleType = DAILY_LIMIT,
                     r_parameters = noParams\<lparr>p_limit := Some 500\<rparr>, r_active = True,
                     r_priority = 0\<rparr>]\<rparr>"

definition fundedDb :: db where
  "fundedDb = snd (postDeposit readmeDb exClock (Owner 100) 1 (Some 1000) None)"

definition idleDms :: dms_state where
  "idleDms = \<lparr>frozenAgents = {}, txWindows = Map.empty\<rparr>"

definition exConfig :: dms_config where
  "exConfig = \<lparr>dc_agentId = 1, dc_anomalyWindowMinutes = 60, dc_anomalySpendMultiplier = 3,
     dc_maxTxPerMinute = 10, dc_maxUniqueVendorsPerHour = 20, dc_onAnomaly = Alert,
     dc_onMissedHeartbeat = Freeze, dc_onManualTrigger = Terminate,
     dc_cascadeToChildren = True, dc_enabled = True\<rparr>"

definition chainDb :: db where
  "chainDb = emptyDb\<lparr>
     agents := [\<lparr>a_id = 1, a_ownerId = 100, a_status = AGENT_ACTIVE\<rparr>,
                \<lparr>a_id = 2, a_ownerId = 100, a_status = AGENT_ACTIVE\<rparr>,
                \<lparr>a_id = 3, a_ownerId = 100, a_status = AGENT_ACTIVE\<rparr>],
     lineages := [\<lparr>l_agentId = 1, l_parentId = None, l_rootId = 1, l_depth = 0,
                    l_childrenIds = [2], l_status = LIN_ACTIVE, l_spawnPolicy = None\<rparr>,
                  \<lparr>l_agentId = 2, l_parentId = Some 1, l_rootId = 1, l_depth = 1,
                    l_childrenIds = [3], l_status = LIN_ACTIVE, l_spawnPolicy = None\<rparr>,
                  \<lparr>l_agentId = 3, l_parentId = Some 2, l_rootId = 1, l_depth = 2,
                    l_childrenIds = [], l_status = LIN_ACTIVE, l_spawnPolicy = None\<rparr>],
     dmsConfigs := [exConfig]\<rparr>"



definition noOverrides :: overrides where
  "noOverrides = \<lparr>o_dailyLimit = Absent, o_maxSpendPerTx = Absent, o_vendorAllowlist = Absent,
     o_daily_limit_ratio = Absent\<rparr>"

definition spawnDb :: db where
  "spawnDb = emptyDb\<lparr>
     wallets := [\<lparr>w_id = 1, w_agentId = 1, w_balance = 1000, w_status = ACTIVE\<rparr>],
     agents := [\<lparr>a_id = 1, a_ownerId = 100, a_status = AGENT_ACTIVE\<rparr>,
                \<lparr>a_id = 2, a_ownerId = 100, a_status = AGENT_ACTIVE\<rparr>,
                \<lparr>a_id = 3, a_ownerId = 100, a_status = AGENT_ACTIVE\<rparr>],
     spendRules := [\<lparr>r_id = 1, r_walletId = 1, r_ruleType = DAILY_LIMIT,
                     r_parameters = noParams\<lparr>p_limit := Some 1000\<rparr>, r_active = True,
                     r_priority = 0\<rparr>]\<rparr>"

text \<open>
  Agent 1 spawns agent 2 with a daily-limit override of 500; \<open>childDb\<close> is the database
  after that spawn.
\<close>

definition tightOverrides :: overrides where
  "tightOverrides = noOverrides\<lparr>o_dailyLimit := Present 500\<rparr>"

definition childDb :: db where
  "childDb = snd (authorizeSpawn spawnDb 1 2 tightOverrides)"

definition negativeOverrides :: overrides where
  "negativeOverrides =
     noOverrides\<lparr>o_dailyLimit := Present (- 1000), o_daily_limit_ratio := Present (- 2)\<rparr>"

definition exSwitch :: kill_switch where
  "exSwitch = \<lparr>ks_id = 1, ks_walletId = 1, ks_triggerType = LOSS_AMOUNT, ks_threshold = 100,
     ks_windowHours = 24, ks_active = True, ks_triggered = True, ks_triggeredAt = Some 0,
     ks_resetAt = None, ks_currentValue = Some 150\<rparr>"

definition latchedDb :: db where
  "latchedDb = emptyDb\<lparr>wallets := [exWallet],
     agents := [\<lparr>a_id = 10, a_ownerId = 100, a_status = AGENT_ACTIVE\<rparr>],
     killSwitches := [exSwitch]\<rparr>"

definition inactiveLatchDb :: db where
  "inactiveLatchDb = latchedDb\<lparr>killSwitches := [exSwitch\<lparr>ks_active := False\<rparr>]\<rparr>"

definition frozenDms :: dms_state where
  "frozenDms = \<lparr>frozenAgents = {10}, txWindows = Map.empty\<rparr>"

definition frozenDb :: db where
  "frozenDb = exDb\<lparr>agents := [\<lparr>a_id = 10, a_ownerId = 100, a_status = AGENT_FROZEN\<rparr>]\<rparr>"

definition velocityDb :: db where
  "velocityDb = exDb\<lparr>dmsConfigs :=
     [exConfig\<lparr>dc_agentId := 10, dc_maxTxPerMinute := 3, dc_onAnomaly := Freeze\<rparr>]\<rparr>"

definition velocityDms :: dms_state where
  "velocityDms = \<lparr>frozenAgents = {},
     txWindows = [10 \<mapsto> [now exClock - 3000, now exClock - 2000, now exClock - 1000]]\<rparr>"

section \<open>Properties of the rules engine and the transaction route\<close>

subsection \<open>Fresh keys and lookups\<close>

lemma fold_max_ge: "(b::nat) \<le> fold max ids b"
proof (induction ids arbitrary: b)
  case Nil show ?case by simp
next
  case (Cons x xs)
  have "max x b \<le> fold max xs (max x b)" by (rule Cons.IH)
  then show ?case by simp
qed

lemma fold_max_mem: "x \<in> set ids \<Longrightarrow> (x::nat) \<le> fold max ids b"
proof (induction ids arbitrary: b)
  case Nil then show ?case by simp
next
  case (Cons y ys)
  show ?case
  proof (cases "x = y")
    case True
    have "max y b \<le> fold max ys (max y b)" by (rule fold_max_ge)
    with True show ?thesis by simp
  next
    case False
    with Cons.prems have "x \<in> set ys" by simp
    then show ?thesis using Cons.IH by simp
  qed
qed

lemma freshId_fresh: "freshId ids \<notin> set ids"
proof
  assume "freshId ids \<in> set ids"
  then have "freshId ids \<le> fold max ids 0" by (rule fold_max_mem)
  then show False by (simp add: freshId_def)
qed

lemma evaluateRules_eq:
  "evaluateRules d clk w c rules (results, approved, requiresApproval) =
     (results @ map (\<lambda>r. \<lparr>e_ruleId = r_id r, e_ruleType = r_ruleType r,
                          e_passed = rr_passed (evaluateRule d clk r w c)\<rparr>) rules,
      approved \<and> (\<forall>r \<in> set rules. rr_passed (evaluateRule d clk r w c)),
      requiresApproval \<or> (\<exists>r \<in> set rules. rr_requiresApproval (evaluateRule d clk r w c)))"
proof (induction rules arbitrary: results approved requiresApproval)
  case Nil show ?case by simp
next
  case (Cons r rs)
  show ?case
    by (simp only: evaluateRules.simps Let_def Cons.IH) auto
qed

lemma requiresApproval_iff:
  "rr_requiresApproval (evaluateRule d clk r w c) =
     (r_ruleType r = REQUIRES_APPROVAL \<and>
      (\<exists>threshold. p_threshold (r_parameters r) = Some threshold \<and> threshold < c_amount c))"
  by (cases "r_ruleType r")
     (simp_all add: checkPerTransactionLimit_def checkDailyLimit_def checkWeeklyLimit_def
       checkMonthlyLimit_def checkCategoryWhitelist_def checkCategoryBlacklist_def
       checkRecipientWhitelist_def checkRecipientBlacklist_def checkTimeWindow_def
       checkRequiresApproval_def checkSignalFilter_def Let_def split: option.splits)

lemma approval_rule_passes:
  "r_ruleType r = REQUIRES_APPROVAL \<Longrightarrow> rr_passed (evaluateRule d clk r w c)"
  by (simp add: checkRequiresApproval_def Let_def)

lemma activeRules_mset:
  "mset (activeRules d w) = mset (filter (\<lambda>r. r_walletId r = w \<and> r_active r) (spendRules d))"
  by (simp add: activeRules_def)

lemma activeRules_sorted:
  "sorted_wrt (\<lambda>r1 r2. r_priority r2 \<le> r_priority r1) (activeRules d w)"
proof -
  have "sorted (map (\<lambda>r. - r_priority r) (activeRules d w))"
    by (simp add: activeRules_def)
  then show ?thesis by (simp add: sorted_map sorted_wrt_iff_nth_less) 
qed

lemma find_map_same:
  assumes "\<And>x. P (f x) = P x"
  shows "find P (map f xs) = map_option f (find P xs)"
  using assms by (induction xs) simp_all

lemma find_SomeD: "find P xs = Some x \<Longrightarrow> P x"
  by (induction xs) (auto split: if_splits)

lemma find_append_fresh:
  assumes "\<forall>y \<in> set xs. \<not> P y" and "P x"
  shows "find P (xs @ [x]) = Some x"
  using assms by (induction xs) simp_all

lemma findWallet_setWalletStatus:
  "findWallet (setWalletStatus d w s) w' =
     map_option (\<lambda>x. if w_id x = w then x\<lparr>w_status := s\<rparr> else x) (findWallet d w')"
  unfolding findWallet_def setWalletStatus_def
  by (simp add: find_map_same)

lemma wallets_triggerKillSwitch [simp]: "wallets (triggerKillSwitch d clk i v) = wallets d"
  by (simp add: triggerKillSwitch_def)

lemma wallets_logAudit [simp]: "wallets (logAudit d a e) = wallets d"
  by (simp add: logAudit_def)

lemma transactions_triggerKillSwitch [simp]:
  "transactions (triggerKillSwitch d clk i v) = transactions d"
  by (simp add: triggerKillSwitch_def)

lemma transactions_logAudit [simp]: "transactions (logAudit d a e) = transactions d"
  by (simp add: logAudit_def)

lemma transactions_setWalletStatus [simp]:
  "transactions (setWalletStatus d w s) = transactions d"
  by (simp add: setWalletStatus_def)

lemma evaluateKillSwitchCondition_total:
  assumes "findWallet d w \<noteq> None"
  shows "\<exists>c. evaluateKillSwitchCondition d clk ks w = Inr c"
  using assms
  by (cases "ks_triggerType ks")
     (auto simp: evaluateKillSwitchCondition_def findWallet_def Let_def split: option.splits)

lemma checkKillSwitches_NotTriggered:
  "checkKillSwitches d clk w kss = (Inr NotTriggered, d1) \<Longrightarrow> d1 = d"
proof (induction kss)
  case Nil then show ?case by simp
next
  case (Cons ks rest)
  then show ?case
    by (auto simp: Let_def split: if_splits sum.splits option.splits)
qed

lemma checkKillSwitches_transactions:
  "transactions (snd (checkKillSwitches d clk w kss)) = transactions d"
proof (induction kss)
  case Nil show ?case by simp
next
  case (Cons ks rest)
  then show ?case
    by (auto simp: Let_def split: if_splits sum.splits option.splits)
qed

lemma checkKillSwitches_balance:
  "map_option w_balance (findWallet (snd (checkKillSwitches d clk w kss)) w') =
   map_option w_balance (findWallet d w')"
proof (induction kss)
  case Nil show ?case by simp
next
  case (Cons ks rest)
  have a: "findWallet (triggerKillSwitch d clk i v) w' = findWallet d w'" for i v
    by (simp add: findWallet_def)
  have b: "findWallet (logAudit d0 ag e) w' = findWallet d0 w'" for d0 ag e
    by (simp add: findWallet_def)
  have c: "map_option w_balance (findWallet (setWalletStatus d0 w s) w') =
           map_option w_balance (findWallet d0 w')" for d0 s
    by (cases "findWallet d0 w'") (simp_all add: findWallet_setWalletStatus)
  show ?case using Cons
    by (auto simp: Let_def a b c split: if_splits sum.splits option.splits)
qed

lemma checkKillSwitches_total:
  assumes "findWallet d w \<noteq> None"
  shows "\<exists>st. fst (checkKillSwitches d clk w kss) = Inr st"
proof (induction kss)
  case Nil show ?case by simp
next
  case (Cons ks rest)
  obtain c where c: "evaluateKillSwitchCondition d clk ks w = Inr c"
    using evaluateKillSwitchCondition_total [OF assms] by blast
  have w: "find (\<lambda>x. w_id x = w) (wallets (triggerKillSwitch d clk i v)) \<noteq> None" for i v
    using assms by (simp add: findWallet_def)
  show ?case using Cons c w
    by (auto simp: Let_def split: option.splits)
qed

lemma evaluateTransaction_cases:
  assumes "findWallet d w \<noteq> None"
  shows "\<exists>ev d1. evaluateTransaction d clk w c = (Inr ev, d1)
           \<and> transactions d1 = transactions d
           \<and> map_option w_balance (findWallet d1 w) = map_option w_balance (findWallet d w)
           \<and> (ev_approved ev \<longrightarrow> d1 = d)"
proof -
  let ?kss = "filter (\<lambda>ks. ks_walletId ks = w \<and> ks_active ks) (killSwitches d)"
  obtain r d1 where r: "checkKillSwitches d clk w ?kss = (r, d1)" by (cases "checkKillSwitches d clk w ?kss")
  obtain st where st: "r = Inr st" using checkKillSwitches_total [OF assms, of clk ?kss] r by auto
  have t: "transactions d1 = transactions d"
    using checkKillSwitches_transactions [of d clk w ?kss] r by simp
  have b: "map_option w_balance (findWallet d1 w) = map_option w_balance (findWallet d w)"
    using checkKillSwitches_balance [of d clk w ?kss w] r by simp
  show ?thesis
  proof (cases st)
    case NotTriggered
    then have "d1 = d" using r st checkKillSwitches_NotTriggered by blast
    then show ?thesis using r st NotTriggered
      by (simp add: evaluateTransaction_def checkKillSwitch_def split: prod.splits)
  next
    case (Triggered i)
    then show ?thesis using r st t b
      by (simp add: evaluateTransaction_def checkKillSwitch_def)
  qed
qed

lemma executeTransaction_ok:
  assumes "findTransaction d i = Some tx" and "findWallet d (t_walletId tx) = Some wal"
  shows "\<exists>d'. executeTransaction d clk i = (Inr (), d')
           \<and> findTransaction d' i = Some (tx\<lparr>t_status := COMPLETED, t_completedAt := Some (now clk)\<rparr>)
           \<and> findWallet d' (t_walletId tx) = Some (wal\<lparr>w_balance := w_balance wal - t_amount tx\<rparr>)"
proof -
  have i: "t_id tx = i" using assms(1) unfolding findTransaction_def by (auto dest: find_SomeD)
  have wi: "w_id wal = t_walletId tx" using assms(2) unfolding findWallet_def by (auto dest: find_SomeD)
  have 1: "find (\<lambda>t. t_id t = i)
             (map (\<lambda>t. if t_id t = i then t\<lparr>t_status := COMPLETED, t_completedAt := Some (now clk)\<rparr> else t)
                (transactions d))
           = map_option (\<lambda>t. if t_id t = i then t\<lparr>t_status := COMPLETED, t_completedAt := Some (now clk)\<rparr> else t)
               (find (\<lambda>t. t_id t = i) (transactions d))"
    by (rule find_map_same) simp
  have 2: "find (\<lambda>w. w_id w = t_walletId tx)
             (map (\<lambda>w. if w_id w = t_walletId tx then w\<lparr>w_balance := w_balance w - t_amount tx\<rparr> else w)
                (wallets d))
           = map_option (\<lambda>w. if w_id w = t_walletId tx then w\<lparr>w_balance := w_balance w - t_amount tx\<rparr> else w)
               (find (\<lambda>w. w_id w = t_walletId tx) (wallets d))"
    by (rule find_map_same) simp
  show ?thesis
    using assms i wi 1 2
    by (simp add: executeTransaction_def Let_def findTransaction_def findWallet_def)
qed

subsection \<open>Admission: the final status of a spend\<close>

text \<open>
  Claim C1. A spend submitted through \<^verbatim>\<open>POST /api/transactions\<close> whose preconditions hold
  (the wallet exists, the caller may use it, it is \<^verbatim>\<open>ACTIVE\<close>, the amount is positive and
  covered by the balance) is always evaluated and persisted, under a fresh key and carrying
  the evaluation. Its final status is \<^verbatim>\<open>REJECTED\<close> when the evaluation is not approved
  and \<^verbatim>\<open>AWAITING_APPROVAL\<close> when it is approved and requires approval, the balance
  unchanged in both cases; otherwise the balance is decremented by exactly the amount and
  the transaction is \<^verbatim>\<open>COMPLETED\<close> with \<^verbatim>\<open>completedAt\<close> set to the current instant.
\<close>

theorem admission_final_status:
  assumes "q_walletId req = Some w" and "q_amount req = Some a"
    and "findWallet d w = Some wal" and "canAccessAgent d au (w_agentId wal)"
    and "w_status wal = ACTIVE" and "0 < a" and "a \<le> w_balance wal"
  shows "\<exists>ev d1 tx.
     evaluateTransaction d clk w
       \<lparr>c_amount = a, c_category = q_category req, c_recipientId = q_recipientId req,
        c_signal_strength = None\<rparr> = (Inr ev, d1)
     \<and> findTransaction (snd (postTransaction d clk au req)) (freshId (map t_id (transactions d)))
         = Some tx
     \<and> t_walletId tx = w \<and> t_amount tx = a \<and> t_ruleCheckResults tx = Some ev
     \<and> (if \<not> ev_approved ev then
           t_status tx = REJECTED \<and> t_completedAt tx = None
           \<and> map_option w_balance (findWallet (snd (postTransaction d clk au req)) w)
               = Some (w_balance wal)
         else if ev_requiresApproval ev then
           t_status tx = AWAITING_APPROVAL \<and> t_completedAt tx = None
           \<and> map_option w_balance (findWallet (snd (postTransaction d clk au req)) w)
               = Some (w_balance wal)
         else
           t_status tx = COMPLETED \<and> t_completedAt tx = Some (now clk)
           \<and> map_option w_balance (findWallet (snd (postTransaction d clk au req)) w)
               = Some (w_balance wal - a))"
proof -
  let ?c = "\<lparr>c_amount = a, c_category = q_category req, c_recipientId = q_recipientId req,
              c_signal_strength = None\<rparr>"
  have ex: "findWallet d w \<noteq> None" using assms(3) by simp
  obtain ev d1 where E: "evaluateTransaction d clk w ?c = (Inr ev, d1)"
    and T: "transactions d1 = transactions d"
    and B: "map_option w_balance (findWallet d1 w) = map_option w_balance (findWallet d w)"
    and A: "ev_approved ev \<longrightarrow> d1 = d"
    using evaluateTransaction_cases [OF ex, of clk ?c] by blast
  let ?i = "freshId (map t_id (transactions d1))"
  let ?st = "if \<not> ev_approved ev then REJECTED
             else if ev_requiresApproval ev then AWAITING_APPROVAL else APPROVED"
  let ?tx = "\<lparr>t_id = ?i, t_walletId = w, t_amount = a, t_recipientId = q_recipientId req,
              t_category = q_category req, t_description = q_description req,
              t_status = ?st, t_ruleCheckResults = Some ev, t_pnl = q_pnl req,
              t_createdAt = now clk, t_completedAt = None\<rparr>"
  let ?d2 = "d1\<lparr>transactions := transactions d1 @ [?tx]\<rparr>"
  have a0: "a \<noteq> 0" "\<not> a \<le> 0" "\<not> w_balance wal < a" using assms(6,7) by simp_all
  have fresh: "\<forall>y \<in> set (transactions d1). \<not> t_id y = ?i"
    using freshId_fresh [of "map t_id (transactions d1)"] by (metis image_eqI set_map)
  have F2: "findTransaction ?d2 ?i = Some ?tx"
    unfolding findTransaction_def using fresh by (simp add: find_append_fresh)
  have W2: "findWallet ?d2 w = findWallet d1 w" by (simp add: findWallet_def)
  have P: "postTransaction d clk au req =
     (if ?st = APPROVED then
        (case executeTransaction ?d2 clk ?i of
           (Inl e, d3) \<Rightarrow> (ServerError, d3)
         | (Inr _, d3) \<Rightarrow> (Created (findTransaction d3 (t_id ?tx)) ev, d3))
      else if ?st = REJECTED then (RejectedByRules ?tx ev, ?d2)
      else (Accepted ?tx ev, ?d2))"
    using assms(1-5) a0 E by (simp add: postTransaction_def Let_def)
  show ?thesis
  proof (cases "ev_approved ev")
    case False
    then have "snd (postTransaction d clk au req) = ?d2" using P by simp
    then show ?thesis using False E F2 W2 B T assms(3) by (intro exI [of _ ev] exI [of _ d1] exI [of _ ?tx]) simp
  next
    case True
    note ap = this
    show ?thesis
    proof (cases "ev_requiresApproval ev")
      case True
      then have "snd (postTransaction d clk au req) = ?d2" using P ap by simp
      then show ?thesis using True ap E F2 W2 B T assms(3)
        by (intro exI [of _ ev] exI [of _ d1] exI [of _ ?tx]) simp
    next
      case False
      have d1: "d1 = d" using A ap by simp
      have W: "findWallet ?d2 (t_walletId ?tx) = Some wal" using W2 d1 assms(3) by simp
      obtain d' where X: "executeTransaction ?d2 clk ?i = (Inr (), d')"
        and XT: "findTransaction d' ?i = Some (?tx\<lparr>t_status := COMPLETED, t_completedAt := Some (now clk)\<rparr>)"
        and XW: "findWallet d' (t_walletId ?tx) = Some (wal\<lparr>w_balance := w_balance wal - t_amount ?tx\<rparr>)"
        using executeTransaction_ok [OF F2 W, of clk] by blast
      have "snd (postTransaction d clk au req) = d'" using P ap False X by simp
      then show ?thesis using False ap E XT XW T
        by (intro exI [of _ ev] exI [of _ d1] exI [of _ "?tx\<lparr>t_status := COMPLETED, t_completedAt := Some (now clk)\<rparr>"]) simp
    qed
  qed
qed

lemma exEval50:
  "evaluateTransaction exDb exClock 1
     \<lparr>c_amount = 50, c_category = q_category (exRequest 50),
      c_recipientId = q_recipientId (exRequest 50), c_signal_strength = None\<rparr> =
   (Inr \<lparr>ev_approved = True, ev_killSwitched = False, ev_requiresApproval = False,
         ev_results = [\<lparr>e_ruleId = 2, e_ruleType = PER_TRANSACTION_LIMIT, e_passed = True\<rparr>,
                       \<lparr>e_ruleId = 1, e_ruleType = REQUIRES_APPROVAL, e_passed = True\<rparr>]\<rparr>, exDb)"
  by (simp add: evaluateTransaction_def checkKillSwitch_def activeRules_def exDb_def emptyDb_def
        noParams_def checkRequiresApproval_def checkPerTransactionLimit_def withinLimit_def
        exRequest_def)

theorem admission_final_status_witness:
  "q_walletId (exRequest 50) = Some 1 \<and> q_amount (exRequest 50) = Some 50
   \<and> findWallet exDb 1 = Some exWallet \<and> canAccessAgent exDb (Agent 10) (w_agentId exWallet)
   \<and> w_status exWallet = ACTIVE \<and> (0::rat) < 50 \<and> 50 \<le> w_balance exWallet
   \<and> map_option t_status
        (findTransaction (snd (postTransaction exDb exClock (Agent 10) (exRequest 50))) 1)
       = Some COMPLETED
   \<and> map_option w_balance
        (findWallet (snd (postTransaction exDb exClock (Agent 10) (exRequest 50))) 1)
       = Some 950"
proof -
  have h1: "q_walletId (exRequest 50) = Some 1" by (simp add: exRequest_def)
  have h2: "q_amount (exRequest 50) = Some 50" by (simp add: exRequest_def)
  have h3: "findWallet exDb 1 = Some exWallet"
    by (simp add: findWallet_def exDb_def emptyDb_def exWallet_def)
  have h4: "canAccessAgent exDb (Agent 10) (w_agentId exWallet)"
    by (simp add: canAccessAgent_def exWallet_def)
  have h5: "w_status exWallet = ACTIVE" by (simp add: exWallet_def)
  have h6: "(0::rat) < 50" by simp
  have h7: "50 \<le> w_balance exWallet" by (simp add: exWallet_def)
  have i: "freshId (map t_id (transactions exDb)) = 1"
    by (simp add: freshId_def exDb_def emptyDb_def)
  have b: "w_balance exWallet - 50 = 950" by (simp add: exWallet_def)
  from admission_final_status [OF h1 h2 h3 h4 h5 h6 h7, of exClock]
  have "map_option t_status
          (findTransaction (snd (postTransaction exDb exClock (Agent 10) (exRequest 50))) 1)
         = Some COMPLETED
        \<and> map_option w_balance
            (findWallet (snd (postTransaction exDb exClock (Agent 10) (exRequest 50))) 1)
           = Some 950"
    unfolding exEval50 i b by auto
  with h1 h2 h3 h4 h5 h6 h7 show ?thesis by blast
qed

subsection \<open>The rules evaluation\<close>

text \<open>
  Claim C5. When the kill-switch pre-check of \<^verbatim>\<open>evaluateTransaction\<close> does not trigger, the
  evaluation leaves the database as it is and: the rules evaluated are exactly the active
  rules of the wallet (as a multiset), in descending priority; \<^verbatim>\<open>results\<close> holds one entry
  per evaluated rule, in that order, failures included (no short-circuit); \<^verbatim>\<open>approved\<close> is
  the conjunction of the \<^verbatim>\<open>passed\<close> flags of the blocking rules (every rule but
  \<^verbatim>\<open>REQUIRES_APPROVAL\<close>); \<^verbatim>\<open>requiresApproval\<close> is the disjunction over the
  \<^verbatim>\<open>REQUIRES_APPROVAL\<close> rules of "amount > threshold"; and such a rule always passes.
\<close>

theorem rules_evaluation_semantics:
  assumes "fst (checkKillSwitch d clk w) = Inr NotTriggered"
  shows "\<exists>ev. evaluateTransaction d clk w c = (Inr ev, d)
     \<and> mset (activeRules d w)
         = mset (filter (\<lambda>r. r_walletId r = w \<and> r_active r) (spendRules d))
     \<and> sorted_wrt (\<lambda>r1 r2. r_priority r2 \<le> r_priority r1) (activeRules d w)
     \<and> ev_results ev
         = map (\<lambda>r. \<lparr>e_ruleId = r_id r, e_ruleType = r_ruleType r,
                      e_passed = rr_passed (evaluateRule d clk r w c)\<rparr>) (activeRules d w)
     \<and> ev_approved ev
         = (\<forall>r \<in> set (activeRules d w).
              r_ruleType r \<noteq> REQUIRES_APPROVAL \<longrightarrow> rr_passed (evaluateRule d clk r w c))
     \<and> ev_requiresApproval ev
         = (\<exists>r \<in> set (activeRules d w).
              r_ruleType r = REQUIRES_APPROVAL
              \<and> (\<exists>threshold. p_threshold (r_parameters r) = Some threshold
                               \<and> threshold < c_amount c))
     \<and> (\<forall>r \<in> set (activeRules d w).
           r_ruleType r = REQUIRES_APPROVAL \<longrightarrow> rr_passed (evaluateRule d clk r w c))"
proof -
  obtain r d1 where k: "checkKillSwitch d clk w = (r, d1)" by (cases "checkKillSwitch d clk w")
  with assms have r: "r = Inr NotTriggered" by simp
  have d1: "d1 = d"
    using k r checkKillSwitches_NotTriggered unfolding checkKillSwitch_def by blast
  let ?ev = "\<lparr>ev_approved = (\<forall>r \<in> set (activeRules d w). rr_passed (evaluateRule d clk r w c)),
              ev_killSwitched = False,
              ev_requiresApproval =
                (\<exists>r \<in> set (activeRules d w). rr_requiresApproval (evaluateRule d clk r w c)),
              ev_results = map (\<lambda>r. \<lparr>e_ruleId = r_id r, e_ruleType = r_ruleType r,
                      e_passed = rr_passed (evaluateRule d clk r w c)\<rparr>) (activeRules d w)\<rparr>"
  have E: "evaluateTransaction d clk w c = (Inr ?ev, d)"
    using k r d1 by (simp add: evaluateTransaction_def evaluateRules_eq)
  have A: "(\<forall>r \<in> set (activeRules d w). rr_passed (evaluateRule d clk r w c))
       = (\<forall>r \<in> set (activeRules d w).
              r_ruleType r \<noteq> REQUIRES_APPROVAL \<longrightarrow> rr_passed (evaluateRule d clk r w c))"
    using approval_rule_passes by blast
  have R: "(\<exists>r \<in> set (activeRules d w). rr_requiresApproval (evaluateRule d clk r w c))
       = (\<exists>r \<in> set (activeRules d w).
              r_ruleType r = REQUIRES_APPROVAL
              \<and> (\<exists>threshold. p_threshold (r_parameters r) = Some threshold
                               \<and> threshold < c_amount c))"
    by (simp only: requiresApproval_iff)
  have P: "\<forall>r \<in> set (activeRules d w).
           r_ruleType r = REQUIRES_APPROVAL \<longrightarrow> rr_passed (evaluateRule d clk r w c)"
    using approval_rule_passes by blast
  show ?thesis
    apply (rule exI [of _ ?ev])
    apply (intro conjI)
          apply (rule E)
         apply (rule activeRules_mset)
        apply (rule activeRules_sorted)
       apply simp
      apply (simp only: evaluation.simps A)
     apply (simp only: evaluation.simps R)
    apply (rule P)
    done
qed

theorem rules_evaluation_semantics_witness:
  "fst (checkKillSwitch exDb exClock 1) = Inr NotTriggered
   \<and> (\<exists>ev. evaluateTransaction exDb exClock 1 (exCandidate 80) = (Inr ev, exDb)
           \<and> map e_ruleId (ev_results ev) = [2, 1]
           \<and> ev_approved ev \<and> ev_requiresApproval ev)"
proof -
  have h: "fst (checkKillSwitch exDb exClock 1) = Inr NotTriggered"
    by (simp add: checkKillSwitch_def exDb_def emptyDb_def)
  have a: "activeRules exDb 1 =
      [\<lparr>r_id = 2, r_walletId = 1, r_ruleType = PER_TRANSACTION_LIMIT,
         r_parameters = noParams\<lparr>p_limit := Some 200\<rparr>, r_active = True, r_priority = 5\<rparr>,
       \<lparr>r_id = 1, r_walletId = 1, r_ruleType = REQUIRES_APPROVAL,
         r_parameters = noParams\<lparr>p_threshold := Some 75\<rparr>, r_active = True, r_priority = 0\<rparr>]"
    by (simp add: activeRules_def exDb_def emptyDb_def)
  from rules_evaluation_semantics [OF h, of "exCandidate 80"]
  show ?thesis
    unfolding a using h
    by (auto simp: exCandidate_def noParams_def checkPerTransactionLimit_def withinLimit_def)
qed

subsection \<open>The rolling spend aggregate\<close>

text \<open>
  \<^verbatim>\<open>getSpendSince\<close> filters on the wallet, the status \<^verbatim>\<open>COMPLETED\<close> and the creation
  time, and on nothing else: its value is the sum over the transactions of a category other
  than "deposit" plus the sum over the deposits. The daily, weekly and monthly limit rules
  compare this aggregate plus the requested amount with the rule's limit.
\<close>

lemma getSpendSince_by_category:
  "getSpendSince d w since =
      sum_list (map t_amount
        (filter (\<lambda>t. t_walletId t = w \<and> t_status t = COMPLETED \<and> since \<le> t_createdAt t
                       \<and> t_category t \<noteq> Some ''deposit'') (transactions d)))
    + sum_list (map t_amount
        (filter (\<lambda>t. t_walletId t = w \<and> t_status t = COMPLETED \<and> since \<le> t_createdAt t
                       \<and> t_category t = Some ''deposit'') (transactions d)))"
proof -
  have split: "sum_list (map f (filter P xs)) =
        sum_list (map f (filter (\<lambda>t. P t \<and> \<not> Q t) xs)) + sum_list (map f (filter (\<lambda>t. P t \<and> Q t) xs))"
    for f :: "txn \<Rightarrow> rat" and P Q xs
    by (induction xs) simp_all
  have "getSpendSince d w since =
      sum_list (map t_amount
        (filter (\<lambda>t. (t_walletId t = w \<and> t_status t = COMPLETED \<and> since \<le> t_createdAt t)
                       \<and> \<not> t_category t = Some ''deposit'') (transactions d)))
    + sum_list (map t_amount
        (filter (\<lambda>t. (t_walletId t = w \<and> t_status t = COMPLETED \<and> since \<le> t_createdAt t)
                       \<and> t_category t = Some ''deposit'') (transactions d)))"
    unfolding getSpendSince_def by (rule split)
  then show ?thesis
    by (simp add: conj_assoc)
qed

lemma limit_rules_use_getSpendSince:
  "rr_passed (checkDailyLimit d clk w amount params)
       = withinLimit (getSpendSince d w (today clk) + amount) (p_limit params)
   \<and> rr_passed (checkWeeklyLimit d clk w amount params)
       = withinLimit (getSpendSince d w (weekStart clk) + amount) (p_limit params)
   \<and> rr_passed (checkMonthlyLimit d clk w amount params)
       = withinLimit (getSpendSince d w (monthStart clk) + amount) (p_limit params)"
  by (simp add: checkDailyLimit_def checkWeeklyLimit_def checkMonthlyLimit_def Let_def)

text \<open>
  Claim C2: the spend aggregate of the daily, weekly and monthly limits sums only completed
  non-deposit transactions, so that a completed deposit never counts toward these limits.
  The code counts it. In the example flow of the README the wallet has a daily limit of 500
  and the owner deposits 1000: the deposit is stored as a completed transaction of category
  "deposit", the wallet has no other transaction, and yet the day's spend is 1000. The
  agent's payment of 50 is then rejected by the daily limit, the balance staying at 1000.
\<close>

theorem deposit_counted_as_spend:
  "fst (postDeposit readmeDb exClock (Owner 100) 1 (Some 1000) None) = DepositSuccessful 1000
   \<and> map (\<lambda>t. (t_amount t, t_category t, t_status t)) (transactions fundedDb)
       = [(1000, Some ''deposit'', COMPLETED)]
   \<and> sum_list (map t_amount
        (filter (\<lambda>t. t_walletId t = 1 \<and> t_status t = COMPLETED \<and> today exClock \<le> t_createdAt t
                       \<and> t_category t \<noteq> Some ''deposit'') (transactions fundedDb))) = 0
   \<and> getSpendSince fundedDb 1 (today exClock) = 1000
   \<and> (case fst (postTransaction fundedDb exClock (Agent 10) (exRequest 50)) of
         RejectedByRules t ev \<Rightarrow> t_status t = REJECTED \<and> map (\<lambda>e. (e_ruleType e, e_passed e)) (ev_results ev) = [(DAILY_LIMIT, False)]
       | _ \<Rightarrow> False)
   \<and> map w_balance (wallets (snd (postTransaction fundedDb exClock (Agent 10) (exRequest 50))))
       = [1000]"
  by (simp add: fundedDb_def postDeposit_def readmeDb_def getSpendSince_def
        postTransaction_def findWallet_def findTransaction_def canAccessAgent_def
        evaluateTransaction_def checkKillSwitch_def activeRules_def executeTransaction_def
        freshId_def exRequest_def exClock_def emptyDb_def noParams_def Let_def
        checkDailyLimit_def withinLimit_def)

section \<open>Properties of the dead-man switch\<close>

subsection \<open>The gate is opt-in\<close>

text \<open>
  Claim C10. For an agent that is not in the frozen set and has no dead-man configuration,
  or a disabled one, the transaction gate allows every amount and every vendor, and leaves
  the database and the in-process state as they are: no velocity, vendor or anomaly check
  runs.
\<close>

theorem dead_man_gate_opt_in:
  assumes "agentId \<notin> frozenAgents m"
    and "getConfig d agentId = None
         \<or> (\<exists>config. getConfig d agentId = Some config \<and> \<not> dc_enabled config)"
  shows "dmsEvaluateTransaction d m clk agentId amount vendor = (Allow, d, m)"
  using assms by (auto simp: dmsEvaluateTransaction_def)

theorem dead_man_gate_opt_in_witness:
  "7 \<notin> frozenAgents idleDms \<and> getConfig chainDb 7 = None
   \<and> dmsEvaluateTransaction chainDb idleDms exClock 7 1000000 (Some ''vendor'')
       = (Allow, chainDb, idleDms)"
proof -
  have h1: "7 \<notin> frozenAgents idleDms" by (simp add: idleDms_def)
  have h2: "getConfig chainDb 7 = None"
    by (simp add: getConfig_def chainDb_def emptyDb_def exConfig_def)
  from dead_man_gate_opt_in [OF h1 disjI1 [OF h2]] h1 h2 show ?thesis by blast
qed

subsection \<open>The cascade of a freeze or terminate\<close>

lemma cascade_eq:
  "cascade s cs (d, m, acc) =
     (d\<lparr>agents := map (\<lambda>a. if a_id a \<in> set cs then a\<lparr>a_status := s\<rparr> else a) (agents d)\<rparr>,
      m\<lparr>frozenAgents := frozenAgents m \<union> set cs\<rparr>, acc @ cs)"
proof (induction cs arbitrary: d m acc)
  case Nil
  show ?case by (simp add: map_idI)
next
  case (Cons c cs)
  have "map (\<lambda>a. if a_id a \<in> set cs then a\<lparr>a_status := s\<rparr> else a)
          (map (\<lambda>a. if a_id a = c then a\<lparr>a_status := s\<rparr> else a) (agents d))
        = map (\<lambda>a. if a_id a \<in> set (c # cs) then a\<lparr>a_status := s\<rparr> else a) (agents d)"
    by (induction "agents d") auto
  then show ?case by (simp add: Cons.IH setAgentStatus_def Un_commute insert_commute)
qed

lemma findLineage_setAgentStatus [simp]:
  "findLineage (setAgentStatus d a s) x = findLineage d x"
  by (simp add: findLineage_def setAgentStatus_def)

lemma findLineage_setLineageStatus:
  "findLineage (setLineageStatus d a s) x =
     map_option (\<lambda>l. if l_agentId l = a then l\<lparr>l_status := s\<rparr> else l) (findLineage d x)"
  unfolding findLineage_def setLineageStatus_def by (simp add: find_map_same)

lemma agents_setAgentStatus:
  "agents (setAgentStatus d x s) = map (\<lambda>a. if a_id a = x then a\<lparr>a_status := s\<rparr> else a) (agents d)"
  by (simp add: setAgentStatus_def)

lemma dmsEvents_setAgentStatus [simp]: "dmsEvents (setAgentStatus d x s) = dmsEvents d"
  by (simp add: setAgentStatus_def)

lemma agents_setLineageStatus [simp]: "agents (setLineageStatus d x s) = agents d"
  by (simp add: setLineageStatus_def)

lemma dmsEvents_setLineageStatus [simp]: "dmsEvents (setLineageStatus d x s) = dmsEvents d"
  by (simp add: setLineageStatus_def)

lemma map_status_twice:
  "map (\<lambda>a. if a_id a \<in> set cs then a\<lparr>a_status := s\<rparr> else a)
     (map (\<lambda>a. if a_id a = x then a\<lparr>a_status := s\<rparr> else a) as)
   = map (\<lambda>a. if a_id a = x \<or> a_id a \<in> set cs then a\<lparr>a_status := s\<rparr> else a) as"
  by (induction as) auto

text \<open>
  Claim C8, as the code has it. When a trigger fires with the action freeze or terminate,
  the configuration has \<^verbatim>\<open>cascadeToChildren\<close> set and the agent has a lineage row, the
  action reaches the agent and its direct children, the \<^verbatim>\<open>childrenIds\<close> of that row,
  and nobody else: the frozen set grows by exactly these agents, exactly their agent rows
  get the status Frozen (Terminated), and the one event recorded lists the direct children
  as \<^verbatim>\<open>cascadedTo\<close>.
\<close>

theorem cascade_reaches_direct_children:
  assumes "action = Freeze \<or> action = Terminate"
    and "dc_cascadeToChildren config"
    and "findLineage d agentId = Some lineage"
  shows "frozenAgents (snd (trigger d m agentId triggerType action (Some config)))
           = frozenAgents m \<union> {agentId} \<union> set (l_childrenIds lineage)
     \<and> agents (fst (trigger d m agentId triggerType action (Some config)))
           = map (\<lambda>a. if a_id a = agentId \<or> a_id a \<in> set (l_childrenIds lineage)
                       then a\<lparr>a_status := actionStatus action\<rparr> else a) (agents d)
     \<and> dmsEvents (fst (trigger d m agentId triggerType action (Some config)))
           = dmsEvents d @
               [\<lparr>de_agentId = agentId, de_triggerType = triggerType, de_actionTaken = action,
                 de_cascadedTo = l_childrenIds lineage, de_resolved = False\<rparr>]"
proof -
  from assms(1) show ?thesis
  proof
    assume a: "action = Freeze"
    show ?thesis
      using assms(2,3)
      by (simp add: a trigger_def cascadeToChildren_def Let_def cascade_eq actionStatus_def
            agents_setAgentStatus map_status_twice Un_commute insert_commute)
  next
    assume a: "action = Terminate"
    have l: "findLineage (setLineageStatus (setAgentStatus d agentId AGENT_TERMINATED) agentId
                LIN_TERMINATED) agentId = Some (lineage\<lparr>l_status := LIN_TERMINATED\<rparr>)"
    proof -
      have "l_agentId lineage = agentId"
        using assms(3) unfolding findLineage_def by (rule find_SomeD)
      then show ?thesis using assms(3) by (simp add: findLineage_setLineageStatus)
    qed
    show ?thesis
      using assms(2) l
      by (simp add: a trigger_def cascadeToChildren_def Let_def cascade_eq actionStatus_def
            agents_setAgentStatus map_status_twice Un_commute insert_commute)
  qed
qed

theorem cascade_reaches_direct_children_witness:
  "(Freeze = Freeze \<or> Freeze = Terminate) \<and> dc_cascadeToChildren exConfig
   \<and> findLineage chainDb 1 = Some \<lparr>l_agentId = 1, l_parentId = None, l_rootId = 1, l_depth = 0,
                    l_childrenIds = [2], l_status = LIN_ACTIVE, l_spawnPolicy = None\<rparr>
   \<and> frozenAgents (snd (trigger chainDb idleDms 1 ''manual'' Freeze (Some exConfig))) = {1, 2}"
proof -
  have h1: "Freeze = Freeze \<or> Freeze = Terminate" by simp
  have h2: "dc_cascadeToChildren exConfig" by (simp add: exConfig_def)
  have h3: "findLineage chainDb 1 = Some \<lparr>l_agentId = 1, l_parentId = None, l_rootId = 1,
      l_depth = 0, l_childrenIds = [2], l_status = LIN_ACTIVE, l_spawnPolicy = None\<rparr>"
    by (simp add: findLineage_def chainDb_def emptyDb_def)
  from cascade_reaches_direct_children [OF h1 h2 h3, of idleDms "''manual''"]
  have "frozenAgents (snd (trigger chainDb idleDms 1 ''manual'' Freeze (Some exConfig))) = {1, 2}"
    by (auto simp: idleDms_def)
  with h1 h2 h3 show ?thesis by blast
qed

text \<open>
  In the lineage 1 \<rightarrow> 2 \<rightarrow> 3 a freeze of agent 1 with the cascade set freezes 1 and 2;
  the grandchild 3 stays out of the frozen set and active, and \<^verbatim>\<open>cascadedTo\<close> is [2].
  A terminate behaves alike.
\<close>

theorem cascade_skips_grandchildren_counterexample:
  "3 \<notin> frozenAgents (snd (trigger chainDb idleDms 1 ''manual'' Freeze (Some exConfig)))
   \<and> map a_status (agents (fst (trigger chainDb idleDms 1 ''manual'' Freeze (Some exConfig))))
       = [AGENT_FROZEN, AGENT_FROZEN, AGENT_ACTIVE]
   \<and> map de_cascadedTo (dmsEvents (fst (trigger chainDb idleDms 1 ''manual'' Freeze (Some exConfig))))
       = [[2]]
   \<and> map a_status (agents (fst (trigger chainDb idleDms 1 ''manual'' Terminate (Some exConfig))))
       = [AGENT_TERMINATED, AGENT_TERMINATED, AGENT_ACTIVE]"
  by (simp add: trigger_def cascadeToChildren_def exConfig_def findLineage_def chainDb_def
        emptyDb_def idleDms_def setAgentStatus_def setLineageStatus_def Let_def)

section \<open>Properties of the cross-agent governor\<close>









section \<open>Properties of the spawn governor\<close>

text \<open>
  No statement assigns \<^verbatim>\<open>parentRules.vendorAllowlist\<close>: the allowlist branch of
  \<^verbatim>\<open>_deriveChildPolicy\<close> is never entered, the function always returns, and the child's
  allowlist is empty.
\<close>

lemma scanRule_vendorAllowlist:
  "pr_vendorAllowlist (scanRule rule parentRules) = pr_vendorAllowlist parentRules"
  by (simp add: scanRule_def Let_def)

lemma fold_scanRule_vendorAllowlist:
  "pr_vendorAllowlist (fold scanRule rules parentRules) = pr_vendorAllowlist parentRules"
  by (induction rules arbitrary: parentRules) (simp_all add: scanRule_vendorAllowlist)

lemma fold_scanWallets_vendorAllowlist:
  "pr_vendorAllowlist
     (fold (\<lambda>(wallet, rules) parentRules. fold scanRule rules parentRules) ws parentRules)
   = pr_vendorAllowlist parentRules"
  by (induction ws arbitrary: parentRules)
     (simp_all add: fold_scanRule_vendorAllowlist split: prod.splits)

lemma scanWallets_vendorAllowlist: "pr_vendorAllowlist (scanWallets ws) = None"
  by (simp add: scanWallets_def fold_scanWallets_vendorAllowlist)

lemma deriveChildPolicy_returns:
  "\<exists>child. deriveChildPolicy ws spawnPolicy ov = Inr child \<and> cp_vendorAllowlist child = []"
  by (simp add: deriveChildPolicy_def Let_def scanWallets_vendorAllowlist orEmpty_def)

text \<open>
  The limits a child is derived from are read off the spending rules on the parent's
  wallets alone. For a parent without such rules they are the defaults 1000 and 100,
  whatever policy the parent itself inherited when it was spawned.
\<close>

lemma deriveChildPolicy_without_rules:
  "deriveChildPolicy [] spawnPolicy noOverrides =
     Inr \<lparr>cp_dailyLimit = 1000 * sp_maxSpendRatio spawnPolicy,
          cp_maxSpendPerTx = 100 * sp_maxTransactionRatio spawnPolicy,
          cp_vendorAllowlist = []\<rparr>"
  by (simp add: deriveChildPolicy_def scanWallets_def orDefault_def orEmpty_def noOverrides_def
        Let_def)

lemmas spawn_eval =
  authorizeSpawn_def deriveChildPolicy_def scanWallets_def parentWallets_def scanRule_def
  orDefault_def orEmpty_def toNumber_def findLineage_def defaultSpawnPolicy_def
  restrictSpawnPolicy_def spawnDb_def emptyDb_def noParams_def noOverrides_def Let_def

text \<open>
  Claim C7: every limit of a child's derived policy is at most the parent's effective limit,
  and an override can never loosen a limit. The code does not keep to it. Agent 1, whose
  wallet has a daily limit of 1000, spawns agent 2 with a daily-limit override of 500:
  agent 2 inherits a daily limit of 500. Agent 2 then spawns agent 3 with no override:
  agent 3 is authorized with a daily limit of 1000, above the 500 of its parent, and both
  policies are recorded in the spawn events. And when agent 1 spawns agent 2 with the
  overrides \<^verbatim>\<open>dailyLimit: -1000\<close> and \<^verbatim>\<open>daily_limit_ratio: -2\<close>, agent 2 is authorized with
  a daily limit of 2000, above the 1000 of agent 1.
\<close>

theorem spawned_limit_exceeds_parent:
  "fst (authorizeSpawn spawnDb 1 2 tightOverrides)
     = SpawnAuthorized \<lparr>cp_dailyLimit = 500, cp_maxSpendPerTx = 100, cp_vendorAllowlist = []\<rparr> 1 1
   \<and> fst (authorizeSpawn childDb 2 3 noOverrides)
     = SpawnAuthorized \<lparr>cp_dailyLimit = 1000, cp_maxSpendPerTx = 100, cp_vendorAllowlist = []\<rparr> 2 1
   \<and> map (\<lambda>e. (se_parentId e, se_childId e, map_option cp_dailyLimit (se_inheritedPolicy e)))
       (spawnEvents (snd (authorizeSpawn childDb 2 3 noOverrides)))
     = [(1, 2, Some 500), (2, 3, Some 1000)]
   \<and> fst (authorizeSpawn spawnDb 1 2 negativeOverrides)
     = SpawnAuthorized \<lparr>cp_dailyLimit = 2000, cp_maxSpendPerTx = 100, cp_vendorAllowlist = []\<rparr> 1 1"
  by (simp add: childDb_def tightOverrides_def negativeOverrides_def spawn_eval)

section \<open>Properties of the kill-switch latch\<close>

lemma killSwitches_setWalletStatus [simp]:
  "killSwitches (setWalletStatus d w s) = killSwitches d"
  by (simp add: setWalletStatus_def)

lemma killSwitches_logAudit [simp]: "killSwitches (logAudit d a e) = killSwitches d"
  by (simp add: logAudit_def)

lemma balances_setWalletStatus [simp]:
  "map w_balance (wallets (setWalletStatus d w s)) = map w_balance (wallets d)"
  by (simp add: setWalletStatus_def comp_def if_distrib cong: if_cong)

lemma activeLatchOn_triggerKillSwitch:
  assumes "activeLatchOn d w"
  shows "activeLatchOn (triggerKillSwitch d clk i v) w"
proof -
  from assms obtain ks where ks: "ks \<in> set (killSwitches d)" "ks_walletId ks = w"
    "ks_active ks" "latched ks" unfolding activeLatchOn_def by blast
  let ?f = "\<lambda>k. if ks_id k = i
                 then k\<lparr>ks_triggered := True, ks_triggeredAt := Some (now clk), ks_currentValue := v\<rparr>
                 else k"
  have "?f ks \<in> set (killSwitches (triggerKillSwitch d clk i v))"
    using ks(1) by (simp add: triggerKillSwitch_def)
  moreover have "ks_walletId (?f ks) = w \<and> ks_active (?f ks) \<and> latched (?f ks)"
    using ks(2-4) by (simp add: latched_def)
  ultimately show ?thesis unfolding activeLatchOn_def by blast
qed

lemma checkKillSwitches_latch_kept:
  assumes "activeLatchOn d w"
  shows "activeLatchOn (snd (checkKillSwitches d clk w' kss)) w"
proof (induction kss)
  case Nil
  show ?case using assms by simp
next
  case (Cons k rest)
  have t: "activeLatchOn (logAudit (setWalletStatus (triggerKillSwitch d clk i v) w' s) a e) w"
    for i v s a e
    using activeLatchOn_triggerKillSwitch [OF assms, of clk i v] by (simp add: activeLatchOn_def)
  have t1: "activeLatchOn (triggerKillSwitch d clk i v) w" for i v
    by (rule activeLatchOn_triggerKillSwitch [OF assms])
  show ?case using Cons assms t t1
    by (auto simp: Let_def split: sum.splits option.splits)
qed

lemma checkKillSwitches_balances:
  "map w_balance (wallets (snd (checkKillSwitches d clk w kss))) = map w_balance (wallets d)"
proof (induction kss)
  case Nil show ?case by simp
next
  case (Cons k rest)
  then show ?case by (auto simp: Let_def split: sum.splits option.splits)
qed

lemma checkKillSwitches_latched_member:
  assumes "ks \<in> set kss" and "latched ks" and "findWallet d w \<noteq> None"
  shows "\<exists>i. fst (checkKillSwitches d clk w kss) = Inr (Triggered i)"
  using assms(1)
proof (induction kss)
  case Nil then show ?case by simp
next
  case (Cons k rest)
  obtain c where c: "evaluateKillSwitchCondition d clk k w = Inr c"
    using evaluateKillSwitchCondition_total [OF assms(3)] by blast
  have w: "find (\<lambda>x. w_id x = w) (wallets (triggerKillSwitch d clk i v)) \<noteq> None" for i v
    using assms(3) by (simp add: findWallet_def)
  show ?case
  proof (cases "ks_triggered k \<and> ks_resetAt k = None")
    case True
    then show ?thesis by simp
  next
    case False
    then have "ks \<noteq> k" using assms(2) by (auto simp: latched_def)
    then have "ks \<in> set rest" using Cons.prems by simp
    then obtain i where "fst (checkKillSwitches d clk w rest) = Inr (Triggered i)"
      using Cons.IH by blast
    then show ?thesis using False c w
      by (auto simp: Let_def split: option.splits)
  qed
qed

lemma evaluateTransaction_latched:
  assumes "activeLatchOn d w" and "findWallet d w \<noteq> None"
  shows "\<exists>ev d1. evaluateTransaction d clk w c = (Inr ev, d1)
           \<and> ev_killSwitched ev \<and> \<not> ev_approved ev \<and> \<not> ev_requiresApproval ev
           \<and> transactions d1 = transactions d
           \<and> map w_balance (wallets d1) = map w_balance (wallets d)
           \<and> activeLatchOn d1 w"
proof -
  let ?kss = "filter (\<lambda>ks. ks_walletId ks = w \<and> ks_active ks) (killSwitches d)"
  from assms(1) obtain ks where "ks \<in> set ?kss" "latched ks"
    unfolding activeLatchOn_def by auto
  then obtain i where i: "fst (checkKillSwitches d clk w ?kss) = Inr (Triggered i)"
    using checkKillSwitches_latched_member [OF _ _ assms(2)] by blast
  obtain d1 where d1: "checkKillSwitches d clk w ?kss = (Inr (Triggered i), d1)"
    using i by (cases "checkKillSwitches d clk w ?kss") simp
  have "transactions d1 = transactions d"
    using checkKillSwitches_transactions [of d clk w ?kss] d1 by simp
  moreover have "map w_balance (wallets d1) = map w_balance (wallets d)"
    using checkKillSwitches_balances [of d clk w ?kss] d1 by simp
  moreover have "activeLatchOn d1 w"
    using checkKillSwitches_latch_kept [OF assms(1), of clk w ?kss] d1 by simp
  ultimately show ?thesis using d1
    by (simp add: evaluateTransaction_def checkKillSwitch_def)
qed

lemma latched_admission:
  assumes "activeLatchOn d w" and "q_walletId req = Some w"
  shows "haltedBySwitch d (postTransaction d clk au req)
     \<and> map w_balance (wallets (snd (postTransaction d clk au req))) = map w_balance (wallets d)
     \<and> filter (\<lambda>t. t_status t = COMPLETED) (transactions (snd (postTransaction d clk au req)))
         = filter (\<lambda>t. t_status t = COMPLETED) (transactions d)
     \<and> activeLatchOn (snd (postTransaction d clk au req)) w"
proof (cases "\<exists>a wal. q_amount req = Some a \<and> 0 < a \<and> findWallet d w = Some wal
                \<and> canAccessAgent d au (w_agentId wal) \<and> w_status wal = ACTIVE
                \<and> a \<le> w_balance wal")
  case False
  have R: "postTransaction d clk au req = (NotFound, d) \<or> postTransaction d clk au req = (Forbidden, d)
        \<or> (\<exists>msg. postTransaction d clk au req = (BadRequest msg, d))"
  proof (cases "q_amount req")
    case None
    then show ?thesis using assms(2) by (simp add: postTransaction_def)
  next
    case (Some a)
    show ?thesis
    proof (cases "findWallet d w")
      case None
      then show ?thesis using assms(2) Some by (simp add: postTransaction_def)
    next
      case (Some wal)
      have "\<not> (0 < a \<and> canAccessAgent d au (w_agentId wal) \<and> w_status wal = ACTIVE
                \<and> a \<le> w_balance wal)"
        using False \<open>q_amount req = Some a\<close> Some by blast
      then have "a = 0 \<or> a \<le> 0 \<or> \<not> canAccessAgent d au (w_agentId wal)
                 \<or> w_status wal \<noteq> ACTIVE \<or> w_balance wal < a"
        by auto
      then show ?thesis using assms(2) \<open>q_amount req = Some a\<close> Some
        by (auto simp: postTransaction_def)
    qed
  qed
  then show ?thesis using assms(1) by (auto simp: haltedBySwitch_def)
next
  case True
  then obtain a wal where h: "q_amount req = Some a" "0 < a" "findWallet d w = Some wal"
    "canAccessAgent d au (w_agentId wal)" "w_status wal = ACTIVE" "a \<le> w_balance wal" by blast
  let ?c = "\<lparr>c_amount = a, c_category = q_category req, c_recipientId = q_recipientId req,
              c_signal_strength = None\<rparr>"
  have ex: "findWallet d w \<noteq> None" using h(3) by simp
  obtain ev d1 where E: "evaluateTransaction d clk w ?c = (Inr ev, d1)"
    and K: "ev_killSwitched ev" "\<not> ev_approved ev"
    and T: "transactions d1 = transactions d"
    and B: "map w_balance (wallets d1) = map w_balance (wallets d)"
    and L: "activeLatchOn d1 w"
    using evaluateTransaction_latched [OF assms(1) ex, of clk ?c] by blast
  let ?tx = "\<lparr>t_id = freshId (map t_id (transactions d1)), t_walletId = w, t_amount = a,
              t_recipientId = q_recipientId req, t_category = q_category req,
              t_description = q_description req, t_status = REJECTED,
              t_ruleCheckResults = Some ev, t_pnl = q_pnl req, t_createdAt = now clk,
              t_completedAt = None\<rparr>"
  have a0: "a \<noteq> 0" "\<not> a \<le> 0" "\<not> w_balance wal < a" using h(2,6) by simp_all
  have P: "postTransaction d clk au req
             = (RejectedByRules ?tx ev, d1\<lparr>transactions := transactions d1 @ [?tx]\<rparr>)"
    using assms(2) h a0 E K by (simp add: postTransaction_def Let_def)
  show ?thesis
    unfolding P using K T B L by (simp add: haltedBySwitch_def activeLatchOn_def)
qed

lemma haltedBySwitch_halted: "haltedBySwitch d rd \<Longrightarrow> halted (fst rd)"
  by (auto simp: haltedBySwitch_def halted_def split: response.splits)

text \<open>
  Claim C3, as the code has it. While a wallet has an active latched kill switch
  (\<^verbatim>\<open>active\<close>, \<^verbatim>\<open>triggered\<close>, \<^verbatim>\<open>resetAt\<close> null), every admission on it, and so every
  run of admissions on it, is halted: each response is a refusal at a precondition or a
  rejection whose evaluation has \<^verbatim>\<open>approved = false\<close> and \<^verbatim>\<open>killSwitched = true\<close>; no
  wallet balance changes; no transaction becomes completed; and the wallet still has an
  active latched switch afterwards. Only a reset (or deactivating the switch) ends this.
\<close>

theorem latched_switch_halts_admissions:
  assumes "activeLatchOn d w"
    and "list_all (\<lambda>(clk, au, req). q_walletId req = Some w) reqs"
  shows "list_all halted (fst (admissions d reqs))
     \<and> map w_balance (wallets (snd (admissions d reqs))) = map w_balance (wallets d)
     \<and> filter (\<lambda>t. t_status t = COMPLETED) (transactions (snd (admissions d reqs)))
         = filter (\<lambda>t. t_status t = COMPLETED) (transactions d)
     \<and> activeLatchOn (snd (admissions d reqs)) w"
  using assms
proof (induction reqs arbitrary: d)
  case Nil
  then show ?case by simp
next
  case (Cons x reqs)
  obtain clk au req where x: "x = (clk, au, req)" by (cases x)
  obtain r d1 where p: "postTransaction d clk au req = (r, d1)"
    by (cases "postTransaction d clk au req")
  have q: "q_walletId req = Some w" and rest: "list_all (\<lambda>(clk, au, req). q_walletId req = Some w) reqs"
    using Cons.prems(2) x by simp_all
  have s: "haltedBySwitch d (r, d1)" "map w_balance (wallets d1) = map w_balance (wallets d)"
    "filter (\<lambda>t. t_status t = COMPLETED) (transactions d1)
       = filter (\<lambda>t. t_status t = COMPLETED) (transactions d)"
    "activeLatchOn d1 w"
    using latched_admission [OF Cons.prems(1) q, of clk au] p by simp_all
  have h: "halted r" using haltedBySwitch_halted [OF s(1)] by simp
  obtain rs d2 where a: "admissions d1 reqs = (rs, d2)" by (cases "admissions d1 reqs")
  have ih: "list_all halted rs" "map w_balance (wallets d2) = map w_balance (wallets d1)"
    "filter (\<lambda>t. t_status t = COMPLETED) (transactions d2)
       = filter (\<lambda>t. t_status t = COMPLETED) (transactions d1)"
    "activeLatchOn d2 w"
    using Cons.IH [OF s(4) rest] a by simp_all
  show ?case using x p a h ih s(2,3) by simp
qed

theorem latched_switch_halts_admissions_witness:
  "activeLatchOn latchedDb 1
   \<and> q_walletId (exRequest 50) = Some 1 \<and> q_walletId (exRequest 10) = Some 1
   \<and> map w_balance
       (wallets (snd (admissions latchedDb
          [(exClock, Agent 10, exRequest 50), (exClock, Owner 100, exRequest 10)]))) = [1000]
   \<and> list_all halted
       (fst (admissions latchedDb
          [(exClock, Agent 10, exRequest 50), (exClock, Owner 100, exRequest 10)]))"
proof -
  let ?reqs = "[(exClock, Agent 10, exRequest 50), (exClock, Owner 100, exRequest 10)]"
  have h1: "activeLatchOn latchedDb 1"
    by (simp add: activeLatchOn_def latchedDb_def emptyDb_def exSwitch_def latched_def)
  have q1: "q_walletId (exRequest 50) = Some 1" and q2: "q_walletId (exRequest 10) = Some 1"
    by (simp_all add: exRequest_def)
  have h2: "list_all (\<lambda>(clk, au, req). q_walletId req = Some 1) ?reqs"
    using q1 q2 by simp
  have b: "map w_balance (wallets latchedDb) = [1000]"
    by (simp add: latchedDb_def emptyDb_def exWallet_def)
  from latched_switch_halts_admissions [OF h1 h2]
  have "list_all halted (fst (admissions latchedDb ?reqs))"
    and "map w_balance (wallets (snd (admissions latchedDb ?reqs))) = [1000]"
    unfolding b by blast+
  with h1 q1 q2 show ?thesis by blast
qed

lemmas route_eval =
  postTransaction_def findWallet_def findTransaction_def canAccessAgent_def
  evaluateTransaction_def checkKillSwitch_def activeRules_def executeTransaction_def
  freshId_def exRequest_def exWallet_def exClock_def emptyDb_def noParams_def Let_def
  checkRequiresApproval_def checkPerTransactionLimit_def withinLimit_def

text \<open>
  A latched switch that is not active does not block: the spend completes and the balance
  drops to 950. And with the switch active, the transaction persisted is
  \<^verbatim>\<open>REJECTED\<close>; no path writes a kill-switched status on a transaction.
\<close>

theorem latched_switch_counterexample:
  "latched (exSwitch\<lparr>ks_active := False\<rparr>)
   \<and> map_option t_status
        (findTransaction (snd (postTransaction inactiveLatchDb exClock (Agent 10) (exRequest 50))) 1)
       = Some COMPLETED
   \<and> map w_balance (wallets (snd (postTransaction inactiveLatchDb exClock (Agent 10) (exRequest 50))))
       = [950]
   \<and> latched exSwitch
   \<and> map t_status
        (transactions (snd (postTransaction latchedDb exClock (Agent 10) (exRequest 50))))
       = [REJECTED]"
  by (simp add: route_eval latched_def exSwitch_def latchedDb_def inactiveLatchDb_def)

section \<open>What the transaction route leaves out\<close>

lemma executeTransaction_frame:
  "auditLogs (snd (executeTransaction d clk i)) = auditLogs d
   \<and> agents (snd (executeTransaction d clk i)) = agents d
   \<and> dmsEvents (snd (executeTransaction d clk i)) = dmsEvents d"
  by (simp add: executeTransaction_def Let_def split: option.splits)

lemma checkKillSwitches_frame:
  "agents (snd (checkKillSwitches d clk w kss)) = agents d
   \<and> dmsEvents (snd (checkKillSwitches d clk w kss)) = dmsEvents d"
proof (induction kss)
  case Nil show ?case by simp
next
  case (Cons k rest)
  then show ?case
    by (auto simp: Let_def triggerKillSwitch_def setWalletStatus_def logAudit_def
          split: sum.splits option.splits)
qed

lemma checkKillSwitches_audit:
  "auditLogs (snd (checkKillSwitches d clk w kss)) = auditLogs d
   \<or> (\<exists>e. auditLogs (snd (checkKillSwitches d clk w kss)) = auditLogs d @ [e]
          \<and> al_action e = ''KILL_SWITCH_TRIGGERED'' \<and> al_resource e = ''wallet''
          \<and> al_resourceId e = w)"
proof (induction kss)
  case Nil show ?case by simp
next
  case (Cons k rest)
  then show ?case
    by (auto simp: Let_def triggerKillSwitch_def setWalletStatus_def logAudit_def
          split: sum.splits option.splits)
qed

lemma evaluateTransaction_snd:
  "snd (evaluateTransaction d clk w c)
     = snd (checkKillSwitches d clk w
         (filter (\<lambda>ks. ks_walletId ks = w \<and> ks_active ks) (killSwitches d)))"
  by (simp add: evaluateTransaction_def checkKillSwitch_def
        split: prod.splits sum.splits kill_switch_status.splits)

lemma postTransaction_frame:
  "\<exists>d1. (d1 = d \<or> (\<exists>w c. q_walletId req = Some w \<and> d1 = snd (evaluateTransaction d clk w c)))
        \<and> auditLogs (snd (postTransaction d clk au req)) = auditLogs d1
        \<and> agents (snd (postTransaction d clk au req)) = agents d1
        \<and> dmsEvents (snd (postTransaction d clk au req)) = dmsEvents d1"
proof (cases "\<exists>w a wal. q_walletId req = Some w \<and> q_amount req = Some a \<and> a \<noteq> 0 \<and> \<not> a \<le> 0
                 \<and> findWallet d w = Some wal \<and> canAccessAgent d au (w_agentId wal)
                 \<and> w_status wal = ACTIVE \<and> \<not> w_balance wal < a")
  case False
  then have "snd (postTransaction d clk au req) = d"
    by (auto simp: postTransaction_def split: option.splits)
  then show ?thesis by auto
next
  case True
  then obtain w a wal where h: "q_walletId req = Some w" "q_amount req = Some a" "a \<noteq> 0"
    "\<not> a \<le> 0" "findWallet d w = Some wal" "canAccessAgent d au (w_agentId wal)"
    "w_status wal = ACTIVE" "\<not> w_balance wal < a" by blast
  let ?c = "\<lparr>c_amount = a, c_category = q_category req, c_recipientId = q_recipientId req,
              c_signal_strength = None\<rparr>"
  obtain r d1 where E: "evaluateTransaction d clk w ?c = (r, d1)"
    by (cases "evaluateTransaction d clk w ?c")
  have "auditLogs (snd (postTransaction d clk au req)) = auditLogs d1
        \<and> agents (snd (postTransaction d clk au req)) = agents d1
        \<and> dmsEvents (snd (postTransaction d clk au req)) = dmsEvents d1"
  proof (cases r)
    case (Inl e)
    then show ?thesis using h E by (simp add: postTransaction_def)
  next
    case (Inr ev)
    let ?st = "if \<not> ev_approved ev then REJECTED
               else if ev_requiresApproval ev then AWAITING_APPROVAL else APPROVED"
    let ?tx = "\<lparr>t_id = freshId (map t_id (transactions d1)), t_walletId = w, t_amount = a,
                t_recipientId = q_recipientId req, t_category = q_category req,
                t_description = q_description req, t_status = ?st,
                t_ruleCheckResults = Some ev, t_pnl = q_pnl req, t_createdAt = now clk,
                t_completedAt = None\<rparr>"
    let ?d2 = "d1\<lparr>transactions := transactions d1 @ [?tx]\<rparr>"
    have P: "postTransaction d clk au req =
       (if ?st = APPROVED then
          (case executeTransaction ?d2 clk (t_id ?tx) of
             (Inl e, d3) \<Rightarrow> (ServerError, d3)
           | (Inr _, d3) \<Rightarrow> (Created (findTransaction d3 (t_id ?tx)) ev, d3))
        else if ?st = REJECTED then (RejectedByRules ?tx ev, ?d2)
        else (Accepted ?tx ev, ?d2))"
      using h E Inr by (simp add: postTransaction_def Let_def)
    have X: "snd (case executeTransaction ?d2 clk (t_id ?tx) of
                    (Inl e, d3) \<Rightarrow> (ServerError, d3)
                  | (Inr _, d3) \<Rightarrow> (Created (findTransaction d3 (t_id ?tx)) ev, d3))
             = snd (executeTransaction ?d2 clk (t_id ?tx))"
      by (simp split: prod.splits sum.splits)
    show ?thesis
    proof (cases "?st = APPROVED")
      case True
      then have "snd (postTransaction d clk au req) = snd (executeTransaction ?d2 clk (t_id ?tx))"
        using P X by simp
      then show ?thesis using executeTransaction_frame [of ?d2 clk "t_id ?tx"] by simp
    next
      case False
      then have "snd (postTransaction d clk au req) = ?d2" using P by simp
      then show ?thesis by simp
    qed
  qed
  moreover have "d1 = snd (evaluateTransaction d clk w ?c)" using E by simp
  ultimately show ?thesis using h(1) by blast
qed

text \<open>
  The only audit row an admission can cause is the one a newly firing kill switch writes,
  about the wallet; no row is ever written about the transaction or its outcome.
\<close>

lemma postTransaction_audit_rows:
  "auditLogs (snd (postTransaction d clk au req)) = auditLogs d
   \<or> (\<exists>e. auditLogs (snd (postTransaction d clk au req)) = auditLogs d @ [e]
          \<and> al_action e = ''KILL_SWITCH_TRIGGERED'' \<and> al_resource e = ''wallet''
          \<and> Some (al_resourceId e) = q_walletId req)"
proof -
  obtain d1 where d1: "d1 = d \<or> (\<exists>w c. q_walletId req = Some w \<and> d1 = snd (evaluateTransaction d clk w c))"
    and a: "auditLogs (snd (postTransaction d clk au req)) = auditLogs d1"
    using postTransaction_frame [where req = req and d = d and clk = clk and au = au] by blast
  from d1 show ?thesis
  proof
    assume "d1 = d" then show ?thesis using a by simp
  next
    assume "\<exists>w c. q_walletId req = Some w \<and> d1 = snd (evaluateTransaction d clk w c)"
    then obtain w c where w: "q_walletId req = Some w" and e: "d1 = snd (evaluateTransaction d clk w c)"
      by blast
    show ?thesis
      using checkKillSwitches_audit [of d clk w
              "filter (\<lambda>ks. ks_walletId ks = w \<and> ks_active ks) (killSwitches d)"]
      unfolding a e evaluateTransaction_snd w by auto
  qed
qed

text \<open>An admission changes no agent row and records no dead-man event.\<close>

lemma postTransaction_leaves_agents:
  "agents (snd (postTransaction d clk au req)) = agents d
   \<and> dmsEvents (snd (postTransaction d clk au req)) = dmsEvents d"
proof -
  obtain d1 where d1: "d1 = d \<or> (\<exists>w c. q_walletId req = Some w \<and> d1 = snd (evaluateTransaction d clk w c))"
    and a: "agents (snd (postTransaction d clk au req)) = agents d1"
           "dmsEvents (snd (postTransaction d clk au req)) = dmsEvents d1"
    using postTransaction_frame [where req = req and d = d and clk = clk and au = au] by blast
  from d1 show ?thesis
    using a checkKillSwitches_frame by (auto simp: evaluateTransaction_snd)
qed

text \<open>
  Claim C4 asks that every spend admission first passes the dead-man gate. The route
  \<^verbatim>\<open>POST /api/transactions\<close> never calls it: it does not even read the in-process
  state. For a frozen agent (in the frozen set) the gate answers "blocked: agent is
  frozen", yet the owner's spend from that agent's wallet completes and debits the
  balance; for an
  agent at its velocity cap the gate answers "blocked: velocity" and would freeze the
  agent, yet the agent's spend completes, the agent stays active and no dead-man event is
  recorded.
\<close>

theorem dead_man_gate_not_consulted:
  "fst (dmsEvaluateTransaction frozenDb frozenDms exClock 10 50 None) = Block AgentFrozen
   \<and> map t_status (transactions (snd (postTransaction frozenDb exClock (Owner 100) (exRequest 50))))
       = [COMPLETED]
   \<and> map w_balance (wallets (snd (postTransaction frozenDb exClock (Owner 100) (exRequest 50))))
       = [950]
   \<and> fst (dmsEvaluateTransaction velocityDb velocityDms exClock 10 50 None) = Block VelocityLimit
   \<and> map t_status (transactions (snd (postTransaction velocityDb exClock (Agent 10) (exRequest 50))))
       = [COMPLETED]
   \<and> map a_status (agents (snd (postTransaction velocityDb exClock (Agent 10) (exRequest 50))))
       = [AGENT_ACTIVE]
   \<and> dmsEvents (snd (postTransaction velocityDb exClock (Agent 10) (exRequest 50))) = []"
  by (simp add: route_eval exDb_def frozenDb_def velocityDb_def dmsEvaluateTransaction_def
        frozenDms_def velocityDms_def getConfig_def exConfig_def trigger_def)

text \<open>
  Claim C6 asks for exactly one audit row per admission outcome. The route writes none:
  a completed, an awaiting-approval and a rejected admission each leave the audit log
  empty.
\<close>

theorem admission_writes_no_audit_row:
  "map t_status (transactions (snd (postTransaction exDb exClock (Agent 10) (exRequest 50))))
       = [COMPLETED]
   \<and> auditLogs (snd (postTransaction exDb exClock (Agent 10) (exRequest 50))) = []
   \<and> map t_status (transactions (snd (postTransaction exDb exClock (Agent 10) (exRequest 80))))
       = [AWAITING_APPROVAL]
   \<and> auditLogs (snd (postTransaction exDb exClock (Agent 10) (exRequest 80))) = []
   \<and> map t_status (transactions (snd (postTransaction exDb exClock (Agent 10) (exRequest 250))))
       = [REJECTED]
   \<and> auditLogs (snd (postTransaction exDb exClock (Agent 10) (exRequest 250))) = []"
  by (simp add: route_eval exDb_def)

end
